theory Spec2Isabelle
  imports Complex_Main
begin

section \<open>The G1 robot telemetry client (G1Robot.ts)\<close>

text \<open>
  A shallow embedding of the class \<^verbatim>\<open>G1Robot\<close>
  (\<^verbatim>\<open>packages/web/src/cesium/vehicles/g1/G1Robot.ts\<close>) and of the fields it
  inherits from \<^verbatim>\<open>Vehicle\<close>. The object is a record; every method takes the
  record and returns the updated one. Callbacks handed to the constructor
  (\<^verbatim>\<open>onStatus\<close>, \<^verbatim>\<open>onStreamStateChange\<close>, \<^verbatim>\<open>onNavigationContext\<close>),
  writes to \<^verbatim>\<open>localStorage\<close> and frames handed to \<^verbatim>\<open>WebSocket.send\<close> are
  kept as logs inside the record, in call order. Clock readings and the answers
  of the Cesium scene are inputs of each call.

  Numbers are JavaScript doubles in the source. Finite values are modelled as
  reals; the three non-finite values are kept apart, since the code tests
  \<^verbatim>\<open>Number.isFinite\<close> throughout. In two places the result depends on the
  rounding of doubles, and there every arithmetic operation is followed by the
  rounding to the nearest double: the arithmetic of \<^verbatim>\<open>sampleTerrainHeight\<close>, and
  the loops of \<^verbatim>\<open>normalizeSignedAngle\<close> under the public method
  \<^verbatim>\<open>setModelHeadingOffsetRad\<close>, whose argument is not bounded. Elsewhere the
  arithmetic is that of the reals.
\<close>

subsection \<open>JavaScript numbers\<close>

datatype jsnum = Finite real | NaN | PosInf | NegInf

fun isFinite :: "jsnum \<Rightarrow> bool" where
  "isFinite (Finite _) = True"
| "isFinite _ = False"

text \<open>\<^verbatim>\<open>Number(v)\<close> for a field declared \<^verbatim>\<open>number | undefined\<close>:
  \<^verbatim>\<open>Number(undefined)\<close> is NaN.\<close>

fun Number_of :: "jsnum option \<Rightarrow> jsnum" where
  "Number_of None = NaN"
| "Number_of (Some n) = n"

text \<open>\<^verbatim>\<open>x > c\<close> for a double \<open>x\<close> and a finite constant \<open>c\<close>.\<close>

fun jsnum_gt :: "jsnum \<Rightarrow> real \<Rightarrow> bool" where
  "jsnum_gt (Finite x) c = (x > c)"
| "jsnum_gt PosInf c = True"
| "jsnum_gt _ c = False"

subsection \<open>Rounding to the nearest double\<close>

text \<open>
  A double is a whole multiple of the spacing of its binade: for
  \<open>2\<^sup>e \<le> |x| < 2\<^sup>e\<^sup>+\<^sup>1\<close> the spacing is \<open>2\<^sup>e\<^sup>-\<^sup>5\<^sup>2\<close>, and below \<open>2\<^sup>-\<^sup>1\<^sup>0\<^sup>2\<^sup>2\<close> (the
  subnormal range) it is \<open>2\<^sup>-\<^sup>1\<^sup>0\<^sup>7\<^sup>4\<close>. An arithmetic operation of JavaScript
  returns the multiple nearest to the exact result, and of two nearest ones the
  even multiple (IEEE 754 round to nearest, ties to even). Overflow to infinity
  is not modelled: it needs a magnitude of \<open>2\<^sup>1\<^sup>0\<^sup>2\<^sup>4\<close>, and the values rounded
  here are heights of at most 3000, clock readings and angles.
\<close>

definition roundTiesToEven :: "real \<Rightarrow> int" where
  "roundTiesToEven y =
     (let f = \<lfloor>y\<rfloor>;
          d = y - of_int f
      in if d < 1 / 2 then f
         else if d > 1 / 2 then f + 1
         else if even f then f else f + 1)"

definition quantum :: "real \<Rightarrow> real" where
  "quantum x = 2 powr of_int (max \<lfloor>log 2 \<bar>x\<bar>\<rfloor> (- 1022) - 52)"

definition binary64 :: "real \<Rightarrow> real" where
  "binary64 x =
     (if x = 0 then 0 else of_int (roundTiesToEven (x / quantum x)) * quantum x)"

subsection \<open>Messages\<close>

record G1RootPose =
  lat :: "jsnum option"
  lon :: "jsnum option"
  height :: "jsnum option"
  quat :: "jsnum list option"

record G1LinkPose =
  pos :: "jsnum list option"
  link_quat :: "jsnum list option"

text \<open>Of the navigation payload only \<^verbatim>\<open>simTimeS\<close> is read by the pose
  pipeline; the other fields are passed through to the callback.\<close>

record G1NavigationPayload =
  nav_simTimeS :: "jsnum option"
  nav_remainingWaypoints :: "jsnum option"
  nav_running :: "bool option"

record G1PosePayload =
  msg_type :: "string option"
  message :: "string option"
  t :: "jsnum option"
  simTimeS :: "jsnum option"
  root :: "G1RootPose option"
  links :: "(string \<times> G1LinkPose) list option"
  nav :: "G1NavigationPayload option"
  payload_error :: "string option"

record obstacle =
  obstacle_id :: string
  obstacle_lat :: jsnum
  obstacle_lon :: jsnum
  radiusM :: jsnum
  kind :: string
  speedMps :: jsnum

datatype ws_message =
    SessionStart real
  | DynamicObstaclesMsg nat real "obstacle list"

datatype StreamState = offline | connecting | live

record G1RuntimeMetrics =
  poseApplyHz :: real
  terrainQueryHz :: real
  terrainProbeHz :: real
  wsInHz :: real
  wsOutHz :: real
  avgCaptureMs :: real

text \<open>The texts handed to \<^verbatim>\<open>onStatus\<close>, with the numbers they print.\<close>

datatype status =
    StatusText string
  | HeadingLockComplete real
  | HeadingAutoCalibrated real
  | PerfClient G1RuntimeMetrics

subsection \<open>Cesium values\<close>

text \<open>
  \<^verbatim>\<open>Cesium.Cartesian3.fromDegrees(lon, lat, height)\<close> is kept symbolic: a position
  is the triple it was built from. The model matrix of the primitive is likewise
  the frame at a position rotated by heading, pitch and roll, and a node matrix
  is the rotation and translation it was built from.
\<close>

datatype cartesian3 = FromDegrees real real real

record HeadingPitchRoll =
  heading :: real
  pitch :: jsnum
  roll :: jsnum

datatype matrix4 = HprFrame cartesian3 real jsnum jsnum

datatype node_matrix =
    GltfMatrix
  | RotationTranslation "real \<times> real \<times> real \<times> real" "real \<times> real \<times> real"

record model_primitive =
  modelMatrix :: matrix4
  nodes :: "string \<rightharpoonup> node_matrix"

text \<open>What the scene answers to the two height queries of one terrain sample:
  \<^verbatim>\<open>globe.getHeight\<close> (NaN for undefined) and \<^verbatim>\<open>clampToHeight\<close> (None for
  undefined, else the height of the clamped point), or where an exception left
  the \<^verbatim>\<open>try\<close> block.\<close>

datatype scene_probe =
    GlobeThrows
  | ClampThrows jsnum
  | Probed jsnum "jsnum option"

text \<open>The inputs of one rendering tick: the clock readings in the order the
  code takes them, the scene's answer at a latitude and longitude, and the two
  Cesium functions the code calls on values.\<close>

record tick_env =
  date_update :: real
  now_update :: real
  now_applyPose :: real
  now_terrain :: real
  date_speed :: real
  now_perf :: real
  sceneQuery :: "real \<Rightarrow> real \<Rightarrow> scene_probe"
  fromQuaternion :: "real \<times> real \<times> real \<times> real \<Rightarrow> jsnum \<times> jsnum \<times> jsnum"
  distance :: "cartesian3 \<Rightarrow> cartesian3 \<Rightarrow> real"

subsection \<open>Browser objects\<close>

datatype readyState = CONNECTING | OPEN | CLOSING | CLOSED

text \<open>An active timer of the window: the reconnect timeout (the only
  \<^verbatim>\<open>setTimeout\<close> of the class) or one of the two capture intervals, with its
  delay in milliseconds.\<close>

datatype timer = ReconnectTimeout nat | FrameCaptureInterval nat | TerrainProbeInterval nat

subsection \<open>The object\<close>

record g1robot =
  ws :: "nat option"
  sockets :: "readyState list"
  reconnectTimer :: "nat option"
  destroyed :: bool
  activeTimers :: "(nat \<times> timer) list"
  nextTimerId :: nat
  latestPayload :: "G1PosePayload option"
  lastProcessedT :: jsnum
  streamStates :: "StreamState list"
  statusLog :: "status list"
  outbox :: "ws_message list"
  navLog :: "G1NavigationPayload list"
  storageWrites :: "real list"
  frameCaptureTimer :: "nat option"
  terrainProbeTimer :: "nat option"
  pendingVisionCapture :: bool
  pendingVisionCaptureListener :: bool
  pendingVisionCaptureRestore :: bool
  dynamicObstacleSeq :: nat
  nodeMap :: "string \<rightharpoonup> string"
  ignoredNodes :: "string set"
  nodeCache :: "string set"
  enableLinkAnimation :: bool
  linkScale :: real
  lastPosePosition :: "cartesian3 option"
  lastPoseTimeMs :: "real option"
  lastGeoLat :: "real option"
  lastGeoLon :: "real option"
  smoothedHeadingRad :: jsnum
  terrainHeightM :: real
  terrainHeightValid :: bool
  currentLat :: "real option"
  currentLon :: "real option"
  lastStaticPoseRefreshMs :: real
  lastPoseApplyMs :: real
  lastTerrainSampleMs :: real
  perfWindowStartedMs :: real
  perfPoseApplied :: nat
  perfTerrainQueries :: nat
  perfTerrainProbes :: nat
  perfFramesCaptured :: nat
  perfFrameCaptureMsTotal :: real
  perfWsIn :: nat
  perfWsOut :: nat
  lastMetrics :: G1RuntimeMetrics
  headingCalibrationSamples :: nat
  headingFastLockComplete :: bool
  headingAlignedStreak :: nat
  primitive :: "model_primitive option"
  position :: cartesian3
  hpRoll :: HeadingPitchRoll
  velocity :: real
  speed :: real
  isReady :: bool
  sceneRef :: bool
  modelHeadingOffset :: real

definition minPoseApplyIntervalMs :: real where
  "minPoseApplyIntervalMs = 33"

definition minTerrainSampleIntervalMs :: real where
  "minTerrainSampleIntervalMs = 300"

definition pelvisToGroundOffsetM :: real where
  "pelvisToGroundOffsetM = 86 / 100"

subsection \<open>Sending\<close>

definition canSendToServer :: "g1robot \<Rightarrow> bool" where
  "canSendToServer s =
     (case ws s of None \<Rightarrow> False
      | Some i \<Rightarrow> i < length (sockets s) \<and> sockets s ! i = OPEN)"

definition sendWsPayload :: "ws_message \<Rightarrow> g1robot \<Rightarrow> g1robot" where
  "sendWsPayload payload s =
     (if \<not> canSendToServer s \<or> ws s = None then s
      else s\<lparr>outbox := outbox s @ [payload], perfWsOut := perfWsOut s + 1\<rparr>)"

text \<open>The \<^verbatim>\<open>map\<close> step of \<^verbatim>\<open>sendDynamicObstacles\<close> on a candidate of the declared
  type: strings and numbers are kept, an empty \<^verbatim>\<open>kind\<close> becomes \<^verbatim>\<open>'vehicle'\<close>.\<close>

definition cleanObstacle :: "obstacle \<Rightarrow> obstacle" where
  "cleanObstacle item =
     \<lparr>obstacle_id = obstacle_id item,
      obstacle_lat = obstacle_lat item,
      obstacle_lon = obstacle_lon item,
      radiusM = radiusM item,
      kind = (if kind item = [] then ''vehicle'' else kind item),
      speedMps = speedMps item\<rparr>"

text \<open>The \<^verbatim>\<open>filter\<close> step.\<close>

definition keepObstacle :: "obstacle \<Rightarrow> bool" where
  "keepObstacle item =
     (length (obstacle_id item) > 0 \<and>
      isFinite (obstacle_lat item) \<and>
      isFinite (obstacle_lon item) \<and>
      isFinite (radiusM item) \<and>
      jsnum_gt (radiusM item) 0)"

definition sendDynamicObstacles :: "real \<Rightarrow> obstacle list \<Rightarrow> g1robot \<Rightarrow> g1robot" where
  "sendDynamicObstacles dateNow obstacles s =
     (if \<not> canSendToServer s then s
      else if length obstacles = 0 then s
      else
        let cleaned = filter keepObstacle (map cleanObstacle obstacles)
        in if length cleaned = 0 then s
           else
             let s1 = s\<lparr>dynamicObstacleSeq := dynamicObstacleSeq s + 1\<rparr>
             in sendWsPayload (DynamicObstaclesMsg (dynamicObstacleSeq s1) dateNow cleaned) s1)"

text \<open>The validation in the words of the specification: a non-empty id, finite
  latitude, longitude and radius, and a radius strictly above zero.\<close>

definition passesValidation :: "obstacle \<Rightarrow> bool" where
  "passesValidation c =
     (obstacle_id c \<noteq> [] \<and>
      (\<exists>la lo r. obstacle_lat c = Finite la \<and> obstacle_lon c = Finite lo \<and>
                 radiusM c = Finite r \<and> 0 < r))"


subsection \<open>Angles\<close>

text \<open>
  \<^verbatim>\<open>Math.PI\<close> is the double nearest to \<open>\<pi>\<close>; its double, \<^verbatim>\<open>Math.PI * 2\<close>, is
  exact.
\<close>

definition Math_PI :: real where
  "Math_PI = 884279719003555 / 2 ^ 48"

text \<open>
  The two \<^verbatim>\<open>while\<close> loops of \<^verbatim>\<open>normalizeSignedAngle\<close>, one after the other, on
  doubles: each round subtracts or adds \<^verbatim>\<open>Math.PI * 2\<close> and rounds. A loop that
  does not end has no result (None): above \<open>2\<^sup>5\<^sup>6\<close> the spacing of the doubles
  is at least 16, the rounded difference is the value itself, and the loop
  runs forever.
\<close>

partial_function (option) normalizeSignedAngle_down :: "real \<Rightarrow> real option" where
  "normalizeSignedAngle_down v =
     (if v > Math_PI then normalizeSignedAngle_down (binary64 (v - Math_PI * 2))
      else Some v)"

partial_function (option) normalizeSignedAngle_up :: "real \<Rightarrow> real option" where
  "normalizeSignedAngle_up v =
     (if v < - Math_PI then normalizeSignedAngle_up (binary64 (v + Math_PI * 2))
      else Some v)"

definition normalizeSignedAngle :: "real \<Rightarrow> real option" where
  "normalizeSignedAngle rad =
     (case normalizeSignedAngle_down rad of
        None \<Rightarrow> None
      | Some v \<Rightarrow> normalizeSignedAngle_up v)"

text \<open>
  Inside the pose pipeline \<^verbatim>\<open>normalizeSignedAngle\<close> is called on the sum or the
  difference of two or three angles, each of magnitude at most \<open>2\<pi>\<close> (a result
  of \<^verbatim>\<open>Math.atan2\<close>, of \<^verbatim>\<open>zeroToTwoPi\<close> or of \<^verbatim>\<open>normalizeSignedAngle\<close> itself, and
  a clamped correction), and in the constructor on the offset that
  \<^verbatim>\<open>persistHeadingOffset\<close> stored, again a result of \<^verbatim>\<open>normalizeSignedAngle\<close>. On
  such arguments the loops end after at most two rounds. There the same two
  loops are taken on reals, as the rest of the pipeline is, where each of them
  ends for every argument.
\<close>

lemma ceiling_step: "0 < (x::real) \<Longrightarrow> nat \<lceil>x - 1\<rceil> < nat \<lceil>x\<rceil>"
  by linarith

function normalizeSignedAngle_real_down :: "real \<Rightarrow> real" where
  "normalizeSignedAngle_real_down v =
     (if v > pi then normalizeSignedAngle_real_down (v - pi * 2) else v)"
  by pat_completeness auto
termination
proof (relation "measure (\<lambda>v. nat \<lceil>(v - pi) / (2 * pi)\<rceil>)")
  show "wf (measure (\<lambda>v. nat \<lceil>(v - pi) / (2 * pi)\<rceil>))" by simp
next
  fix v :: real
  assume gt: "pi < v"
  have eq: "(v - pi * 2 - pi) / (2 * pi) = (v - pi) / (2 * pi) - 1"
    using pi_gt_zero by (simp add: field_simps)
  have pos: "0 < (v - pi) / (2 * pi)"
    using gt pi_gt_zero by simp
  show "(v - pi * 2, v) \<in> measure (\<lambda>v. nat \<lceil>(v - pi) / (2 * pi)\<rceil>)"
    using ceiling_step [OF pos] by (simp only: in_measure eq)
qed

function normalizeSignedAngle_real_up :: "real \<Rightarrow> real" where
  "normalizeSignedAngle_real_up v =
     (if v < - pi then normalizeSignedAngle_real_up (v + pi * 2) else v)"
  by pat_completeness auto
termination
proof (relation "measure (\<lambda>v. nat \<lceil>(- pi - v) / (2 * pi)\<rceil>)")
  show "wf (measure (\<lambda>v. nat \<lceil>(- pi - v) / (2 * pi)\<rceil>))" by simp
next
  fix v :: real
  assume lt: "v < - pi"
  have eq: "(- pi - (v + pi * 2)) / (2 * pi) = (- pi - v) / (2 * pi) - 1"
    using pi_gt_zero by (simp add: field_simps)
  have pos: "0 < (- pi - v) / (2 * pi)"
    using lt pi_gt_zero by simp
  show "(v + pi * 2, v) \<in> measure (\<lambda>v. nat \<lceil>(- pi - v) / (2 * pi)\<rceil>)"
    using ceiling_step [OF pos] by (simp only: in_measure eq)
qed

declare normalizeSignedAngle_real_down.simps [simp del]
declare normalizeSignedAngle_real_up.simps [simp del]

definition normalizeSignedAngle_real :: "real \<Rightarrow> real" where
  "normalizeSignedAngle_real rad =
     normalizeSignedAngle_real_up (normalizeSignedAngle_real_down rad)"

text \<open>
  \<^verbatim>\<open>Cesium.Math.zeroToTwoPi\<close>, from the library's documentation and source: an
  angle already in \<open>[0, 2\<pi>]\<close> is returned as it is, any other angle is reduced
  modulo \<open>2\<pi>\<close> into \<open>[0, 2\<pi>)\<close>. The library's guard against rounding (a
  remainder below \<open>1e-14\<close> of a non-zero angle gives \<open>2\<pi>\<close>) concerns doubles and is
  left out.
\<close>

definition TWO_PI :: real where
  "TWO_PI = 2 * pi"

definition zeroToTwoPi :: "real \<Rightarrow> real" where
  "zeroToTwoPi angle =
     (if angle \<ge> 0 \<and> angle \<le> TWO_PI then angle
      else angle - TWO_PI * of_int \<lfloor>angle / TWO_PI\<rfloor>)"

definition toRadians :: "real \<Rightarrow> real" where
  "toRadians degrees = degrees * (pi / 180)"

definition toDegrees :: "real \<Rightarrow> real" where
  "toDegrees radians = radians * (180 / pi)"

text \<open>\<^verbatim>\<open>Cesium.Math.clamp(value, min, max)\<close>.\<close>

definition clamp :: "real \<Rightarrow> real \<Rightarrow> real \<Rightarrow> real" where
  "clamp v lo hi = (if v < lo then lo else if v > hi then hi else v)"

definition lerpAngle :: "real \<Rightarrow> real \<Rightarrow> real \<Rightarrow> real" where
  "lerpAngle start end' factor =
     (let normalizedStart = zeroToTwoPi start;
          normalizedEnd = zeroToTwoPi end';
          delta0 = normalizedEnd - normalizedStart;
          delta = (if delta0 > pi then delta0 - TWO_PI
                   else if delta0 < - pi then delta0 + TWO_PI
                   else delta0)
      in zeroToTwoPi (normalizedStart + delta * factor))"

subsection \<open>Heading calibration\<close>

definition persistHeadingOffset :: "g1robot \<Rightarrow> g1robot" where
  "persistHeadingOffset s = s\<lparr>storageWrites := storageWrites s @ [modelHeadingOffset s]\<rparr>"

definition onStatus :: "status \<Rightarrow> g1robot \<Rightarrow> g1robot" where
  "onStatus m s = s\<lparr>statusLog := statusLog s @ [m]\<rparr>"

text \<open>The error of one sample, as \<^verbatim>\<open>maybeAutoCalibrateHeading\<close> computes it
  (on reals it is always finite).\<close>

definition headingError :: "real \<Rightarrow> g1robot \<Rightarrow> real" where
  "headingError moveHeading s =
     normalizeSignedAngle_real (moveHeading - (heading (hpRoll s) + modelHeadingOffset s))"

definition maybeAutoCalibrateHeading :: "real option \<Rightarrow> g1robot \<Rightarrow> g1robot" where
  "maybeAutoCalibrateHeading moveHeading s =
     (case moveHeading of
        None \<Rightarrow> s
      | Some mh \<Rightarrow>
          if velocity s < 12 / 100 then s
          else if headingCalibrationSamples s \<ge> 360 then s
          else
            let error = headingError mh s
            in if \<bar>error\<bar> > toRadians 70 then s
               else if \<not> headingFastLockComplete s then
                 let fastCorrection = clamp error (- (22 / 100)) (22 / 100) * (35 / 100);
                     s1 = (if \<bar>fastCorrection\<bar> > 1 / 10 ^ 4
                           then s\<lparr>modelHeadingOffset :=
                                     normalizeSignedAngle_real
                                       (modelHeadingOffset s + fastCorrection)\<rparr>
                           else s);
                     s2 = s1\<lparr>headingCalibrationSamples := headingCalibrationSamples s1 + 1\<rparr>;
                     s3 = (if \<bar>error\<bar> \<le> toRadians 15
                           then s2\<lparr>headingAlignedStreak := headingAlignedStreak s2 + 1\<rparr>
                           else s2\<lparr>headingAlignedStreak := 0\<rparr>)
                 in if headingAlignedStreak s3 \<ge> 20 \<or> headingCalibrationSamples s3 \<ge> 90
                    then
                      let s4 = s3\<lparr>headingFastLockComplete := True\<rparr>;
                          s5 = persistHeadingOffset s4
                      in onStatus (HeadingLockComplete (toDegrees (modelHeadingOffset s5))) s5
                    else s3
               else
                 let correction = clamp error (- (4 / 100)) (4 / 100) * (6 / 100)
                 in if \<bar>correction\<bar> < 1 / 10 ^ 4 then s
                    else
                      let s1 = s\<lparr>modelHeadingOffset :=
                                    normalizeSignedAngle_real
                                      (modelHeadingOffset s + correction)\<rparr>;
                          s2 = s1\<lparr>headingCalibrationSamples := headingCalibrationSamples s1 + 1\<rparr>
                      in if headingCalibrationSamples s2 mod 45 = 0
                         then
                           let s3 = persistHeadingOffset s2
                           in onStatus (HeadingAutoCalibrated (toDegrees (modelHeadingOffset s3))) s3
                         else s2)"

text \<open>\<^verbatim>\<open>Vehicle.updateModelMatrix\<close>.\<close>

definition updateModelMatrix :: "g1robot \<Rightarrow> g1robot" where
  "updateModelMatrix s =
     (case primitive s of
        None \<Rightarrow> s
      | Some p \<Rightarrow>
          s\<lparr>primitive := Some (p\<lparr>modelMatrix :=
               HprFrame (position s) (heading (hpRoll s) + modelHeadingOffset s)
                        (pitch (hpRoll s)) (roll (hpRoll s))\<rparr>)\<rparr>)"

text \<open>\<^verbatim>\<open>setModelHeadingOffsetRad\<close> returns the offset and changes the object. It
  is public and takes any number; where the loops of \<^verbatim>\<open>normalizeSignedAngle\<close> do
  not end, the call does not return (None).\<close>

definition setModelHeadingOffsetRad :: "jsnum \<Rightarrow> g1robot \<Rightarrow> (real \<times> g1robot) option" where
  "setModelHeadingOffsetRad offsetRad s =
     (case offsetRad of
        Finite next \<Rightarrow>
          (case normalizeSignedAngle next of
             None \<Rightarrow> None
           | Some normalized \<Rightarrow>
               let s1 = s\<lparr>modelHeadingOffset := normalized\<rparr>;
                   s2 = persistHeadingOffset s1;
                   s3 = s2\<lparr>headingCalibrationSamples := 360,
                           headingFastLockComplete := True,
                           headingAlignedStreak := 0\<rparr>;
                   s4 = updateModelMatrix s3
               in Some (modelHeadingOffset s4, s4))
      | _ \<Rightarrow> Some (modelHeadingOffset s, s))"

subsection \<open>Construction\<close>

text \<open>
  The object after the constructor, for a configuration that gives the start
  position and leaves heading, pitch, roll, heading offset and link scale at
  their defaults. \<open>stored\<close> is the number read from \<^verbatim>\<open>localStorage\<close> (None
  when the key is absent), \<open>now\<close> the reading of \<^verbatim>\<open>performance.now()\<close>.
\<close>

definition G1Robot_new :: "cartesian3 \<Rightarrow> jsnum option \<Rightarrow> real \<Rightarrow> g1robot" where
  "G1Robot_new configPosition stored now =
     \<lparr>ws = None,
      sockets = [],
      reconnectTimer = None,
      destroyed = False,
      activeTimers = [],
      nextTimerId = 1,
      latestPayload = None,
      lastProcessedT = NaN,
      streamStates = [],
      statusLog = [],
      outbox = [],
      navLog = [],
      storageWrites = [],
      frameCaptureTimer = None,
      terrainProbeTimer = None,
      pendingVisionCapture = False,
      pendingVisionCaptureListener = False,
      pendingVisionCaptureRestore = False,
      dynamicObstacleSeq = 0,
      nodeMap = Map.empty,
      ignoredNodes = {},
      nodeCache = {},
      enableLinkAnimation = False,
      linkScale = 1,
      lastPosePosition = None,
      lastPoseTimeMs = None,
      lastGeoLat = None,
      lastGeoLon = None,
      smoothedHeadingRad = NaN,
      terrainHeightM = 0,
      terrainHeightValid = False,
      currentLat = None,
      currentLon = None,
      lastStaticPoseRefreshMs = 0,
      lastPoseApplyMs = 0,
      lastTerrainSampleMs = 0,
      perfWindowStartedMs = now,
      perfPoseApplied = 0,
      perfTerrainQueries = 0,
      perfTerrainProbes = 0,
      perfFramesCaptured = 0,
      perfFrameCaptureMsTotal = 0,
      perfWsIn = 0,
      perfWsOut = 0,
      lastMetrics = \<lparr>poseApplyHz = 0, terrainQueryHz = 0, terrainProbeHz = 0,
                     wsInHz = 0, wsOutHz = 0, avgCaptureMs = 0\<rparr>,
      headingCalibrationSamples = 0,
      headingFastLockComplete = False,
      headingAlignedStreak = 0,
      primitive = None,
      position = configPosition,
      hpRoll = \<lparr>heading = 0, pitch = Finite 0, roll = Finite 0\<rparr>,
      velocity = 0,
      speed = 0,
      isReady = False,
      sceneRef = False,
      modelHeadingOffset =
        (case stored of
           Some (Finite parsed) \<Rightarrow> normalizeSignedAngle_real parsed
         | _ \<Rightarrow> 0)\<rparr>"

subsection \<open>Directions\<close>

text \<open>Two angles name the same direction when they differ by whole turns.\<close>

definition sameDirection :: "real \<Rightarrow> real \<Rightarrow> bool" where
  "sameDirection a b = (\<exists>k::int. a = b + TWO_PI * of_int k)"

subsection \<open>Fast lock\<close>

text \<open>While fast lock is running, the streak is below 20 and the sample count
  below 90. The streak after a sample with a given error: one more when the
  error is at most 15 degrees, zero otherwise.\<close>

definition fastLockInv :: "g1robot \<Rightarrow> bool" where
  "fastLockInv s =
     (headingFastLockComplete s \<or>
      (headingAlignedStreak s < 20 \<and> headingCalibrationSamples s < 90))"

definition alignedStreakAfter :: "real \<Rightarrow> g1robot \<Rightarrow> nat" where
  "alignedStreakAfter error s =
     (if \<bar>error\<bar> \<le> toRadians 15 then headingAlignedStreak s + 1 else 0)"

subsection \<open>Terrain height\<close>

text \<open>The choice between the globe height and the clamped height inside
  \<^verbatim>\<open>sampleTerrainHeight\<close>. The difference of the two heights is a double. A
  comparison with NaN is false; plus infinity passes \<^verbatim>\<open>delta >= -2.0\<close>.\<close>

definition resolveSampledHeight :: "jsnum \<Rightarrow> jsnum option \<Rightarrow> jsnum" where
  "resolveSampledHeight globeHeight clamped =
     (let sampledHeight = (if isFinite globeHeight then globeHeight else NaN)
      in case clamped of
           None \<Rightarrow> sampledHeight
         | Some clampedHeight \<Rightarrow>
             (case sampledHeight of
                Finite sh \<Rightarrow>
                  (case clampedHeight of
                     Finite ch \<Rightarrow>
                       let delta = binary64 (ch - sh)
                       in if delta \<ge> - 2 then Finite ch else Finite sh
                   | PosInf \<Rightarrow> PosInf
                   | _ \<Rightarrow> Finite sh)
              | _ \<Rightarrow> clampedHeight))"

text \<open>The smoothing policy on an accepted sample. \<^verbatim>\<open>delta\<close> is the double that the
  subtraction returns, and \<^verbatim>\<open>this.terrainHeightM += delta * 0.75\<close> rounds the
  product and then the sum (0.75 and 0.5 are doubles).\<close>

definition acceptTerrainSample :: "real \<Rightarrow> g1robot \<Rightarrow> g1robot" where
  "acceptTerrainSample sampledHeight s =
     (if \<not> terrainHeightValid s
      then s\<lparr>terrainHeightM := sampledHeight, terrainHeightValid := True\<rparr>
      else
        let delta = binary64 (sampledHeight - terrainHeightM s)
        in if \<bar>delta\<bar> > 12 then s\<lparr>terrainHeightM := sampledHeight\<rparr>
           else if \<bar>delta\<bar> > 2
           then s\<lparr>terrainHeightM := binary64 (terrainHeightM s + binary64 (delta * (75 / 100)))\<rparr>
           else s\<lparr>terrainHeightM := binary64 (terrainHeightM s + binary64 (delta * (5 / 10)))\<rparr>)"

definition terrainFallback :: "g1robot \<Rightarrow> real \<times> g1robot" where
  "terrainFallback s = (if terrainHeightValid s then terrainHeightM s else 0, s)"

definition sampleTerrainHeight :: "tick_env \<Rightarrow> real \<Rightarrow> real \<Rightarrow> g1robot \<Rightarrow> real \<times> g1robot" where
  "sampleTerrainHeight env lat' lon' s =
     (if \<not> sceneRef s then (0, s)
      else
        let nowMs = now_terrain env
        in if binary64 (nowMs - lastTerrainSampleMs s) < minTerrainSampleIntervalMs
              \<and> terrainHeightValid s
           then (terrainHeightM s, s)
           else
             let s1 = s\<lparr>lastTerrainSampleMs := nowMs\<rparr>;
                 maxTerrainHeightM = 3000
             in case sceneQuery env lat' lon' of
                  GlobeThrows \<Rightarrow>
                    terrainFallback (s1\<lparr>perfTerrainQueries := perfTerrainQueries s1 + 1\<rparr>)
                | ClampThrows globeHeight \<Rightarrow>
                    terrainFallback (s1\<lparr>perfTerrainQueries := perfTerrainQueries s1 + 2\<rparr>)
                | Probed globeHeight clamped \<Rightarrow>
                    let s2 = s1\<lparr>perfTerrainQueries := perfTerrainQueries s1 + 2\<rparr>
                    in case resolveSampledHeight globeHeight clamped of
                         Finite sampledHeight \<Rightarrow>
                           if \<bar>sampledHeight\<bar> > maxTerrainHeightM then terrainFallback s2
                           else
                             let s3 = acceptTerrainSample sampledHeight s2
                             in (terrainHeightM s3, s3)
                       | _ \<Rightarrow> terrainFallback s2)"

subsection \<open>Motion heading\<close>

text \<open>\<^verbatim>\<open>Math.atan2(y, x)\<close> on reals (signed zeros are not modelled).\<close>

definition atan2 :: "real \<Rightarrow> real \<Rightarrow> real" where
  "atan2 y x =
     (if x > 0 then arctan (y / x)
      else if x < 0 then (if y \<ge> 0 then arctan (y / x) + pi else arctan (y / x) - pi)
      else if y > 0 then pi / 2
      else if y < 0 then - (pi / 2)
      else 0)"

definition hypot :: "real \<Rightarrow> real \<Rightarrow> real" where
  "hypot a b = sqrt (a * a + b * b)"

definition estimateMotionHeading :: "real \<Rightarrow> real \<Rightarrow> g1robot \<Rightarrow> real option \<times> g1robot" where
  "estimateMotionHeading lat' lon' s =
     (let prevLat = lastGeoLat s;
          prevLon = lastGeoLon s;
          s1 = s\<lparr>lastGeoLat := Some lat', lastGeoLon := Some lon'\<rparr>
      in case prevLat of
           None \<Rightarrow> (None, s1)
         | Some pLat \<Rightarrow>
             (case prevLon of
                None \<Rightarrow> (None, s1)
              | Some pLon \<Rightarrow>
                  let toRad = pi / 180;
                      dLat = (lat' - pLat) * toRad;
                      dLon = (lon' - pLon) * toRad;
                      meanLat = ((lat' + pLat) * (5 / 10)) * toRad;
                      east = dLon * cos meanLat;
                      north = dLat;
                      movement = hypot east north
                  in if movement < 5 / 10 ^ 9 then (None, s1)
                     else (Some (atan2 east north), s1)))"

subsection \<open>Root transform\<close>

definition sanitizeQuat :: "jsnum list option \<Rightarrow> real \<times> real \<times> real \<times> real" where
  "sanitizeQuat raw =
     (case raw of
        None \<Rightarrow> (1, 0, 0, 0)
      | Some q \<Rightarrow>
          if length q \<noteq> 4 then (1, 0, 0, 0)
          else if \<not> list_all isFinite q then (1, 0, 0, 0)
          else
            (case q of
               [Finite q0, Finite q1, Finite q2, Finite q3] \<Rightarrow> (q0, q1, q2, q3)
             | _ \<Rightarrow> (1, 0, 0, 0)))"

definition applyRootTransform ::
  "tick_env \<Rightarrow> real \<times> real \<times> real \<times> real \<Rightarrow> real option \<Rightarrow> g1robot \<Rightarrow> g1robot" where
  "applyRootTransform env quatWxyz moveHeading s =
     (case quatWxyz of (qw, qx, qy, qz) \<Rightarrow>
      case fromQuaternion env (qx, qy, qz, qw) of (rawHeading, rawPitch, rawRoll) \<Rightarrow>
        let heading0 = (if isFinite rawHeading then rawHeading else smoothedHeadingRad s);
            heading1 =
              (case moveHeading of
                 None \<Rightarrow> heading0
               | Some mh \<Rightarrow>
                   let targetBodyHeading = normalizeSignedAngle_real (mh - modelHeadingOffset s)
                   in case heading0 of
                        Finite h \<Rightarrow> Finite (lerpAngle h targetBodyHeading (72 / 100))
                      | _ \<Rightarrow> Finite targetBodyHeading);
            heading2 = (case heading1 of Finite h \<Rightarrow> h | _ \<Rightarrow> 0);
            smoothed =
              (case smoothedHeadingRad s of
                 Finite sm \<Rightarrow>
                   lerpAngle sm heading2 (if moveHeading \<noteq> None then 32 / 100 else 8 / 100)
               | _ \<Rightarrow> heading2);
            s1 = s\<lparr>smoothedHeadingRad := Finite smoothed,
                    hpRoll := \<lparr>heading = zeroToTwoPi smoothed, pitch = rawPitch, roll = rawRoll\<rparr>\<rparr>;
            s2 = maybeAutoCalibrateHeading moveHeading s1
        in case primitive s2 of
             None \<Rightarrow> s2
           | Some p \<Rightarrow>
               s2\<lparr>primitive := Some (p\<lparr>modelMatrix :=
                     HprFrame (position s2) (heading (hpRoll s2) + modelHeadingOffset s2)
                              (pitch (hpRoll s2)) (roll (hpRoll s2))\<rparr>)\<rparr>)"

subsection \<open>Link animation\<close>

definition remapLinkPosition :: "real \<Rightarrow> real \<Rightarrow> real \<Rightarrow> real \<times> real \<times> real" where
  "remapLinkPosition x y z = (x, z, - y)"

definition remapLinkQuat ::
  "real \<Rightarrow> real \<Rightarrow> real \<Rightarrow> real \<Rightarrow> real \<times> real \<times> real \<times> real" where
  "remapLinkQuat w x y z =
     (let s = sqrt (1 / 2);
          aW = s; aX = - s; aY = 0; aZ = 0;
          aiW = s; aiX = s; aiY = 0; aiZ = 0;
          tW = aW * w - aX * x - aY * y - aZ * z;
          tX = aW * x + aX * w + aY * z - aZ * y;
          tY = aW * y - aX * z + aY * w + aZ * x;
          tZ = aW * z + aX * y - aY * x + aZ * w;
          outW = tW * aiW - tX * aiX - tY * aiY - tZ * aiZ;
          outX = tW * aiX + tX * aiW + tY * aiZ - tZ * aiY;
          outY = tW * aiY - tX * aiZ + tY * aiW + tZ * aiX;
          outZ = tW * aiZ + tX * aiY - tY * aiX + tZ * aiW
      in (outW, outX, outY, outZ))"

text \<open>\<^verbatim>\<open>this.nodeMap[sourceName] || sourceName\<close>: an empty mapped name falls back
  to the source name.\<close>

definition mapNodeName :: "g1robot \<Rightarrow> string \<Rightarrow> string option" where
  "mapNodeName s sourceName =
     (if sourceName \<in> ignoredNodes s then None
      else case nodeMap s sourceName of
             None \<Rightarrow> Some sourceName
           | Some target \<Rightarrow> Some (if target = [] then sourceName else target))"

text \<open>A node is referred to by its name; the cache holds the names already
  looked up in the primitive.\<close>

definition getNode :: "string \<Rightarrow> g1robot \<Rightarrow> string option \<times> g1robot" where
  "getNode nodeName s =
     (if nodeName \<in> nodeCache s then (Some nodeName, s)
      else case primitive s of
             None \<Rightarrow> (None, s)
           | Some p \<Rightarrow>
               (case nodes p nodeName of
                  None \<Rightarrow> (None, s)
                | Some _ \<Rightarrow> (Some nodeName, s\<lparr>nodeCache := insert nodeName (nodeCache s)\<rparr>)))"

definition setNodeMatrix :: "string \<Rightarrow> node_matrix \<Rightarrow> g1robot \<Rightarrow> g1robot" where
  "setNodeMatrix node m s =
     (case primitive s of
        None \<Rightarrow> s
      | Some p \<Rightarrow> s\<lparr>primitive := Some (p\<lparr>nodes := (nodes p)(node \<mapsto> m)\<rparr>)\<rparr>)"

text \<open>One round of the loop over \<^verbatim>\<open>Object.entries(links)\<close>; every
  \<^verbatim>\<open>continue\<close> leaves the object as the lookup left it.\<close>

definition applyLink :: "string \<times> G1LinkPose \<Rightarrow> g1robot \<Rightarrow> g1robot" where
  "applyLink entry s =
     (case entry of (sourceName, pose) \<Rightarrow>
      case mapNodeName s sourceName of
        None \<Rightarrow> s
      | Some nodeName \<Rightarrow>
          if nodeName = [] then s
          else
            (case getNode nodeName s of
               (None, s1) \<Rightarrow> s1
             | (Some node, s1) \<Rightarrow>
                 (case pos pose of
                    None \<Rightarrow> s1
                  | Some p \<Rightarrow>
                      (case link_quat pose of
                         None \<Rightarrow> s1
                       | Some q \<Rightarrow>
                           if length p \<noteq> 3 \<or> length q \<noteq> 4 then s1
                           else if \<not> list_all isFinite (p @ q) then s1
                           else
                             (case (p, q) of
                                ([Finite px, Finite py, Finite pz],
                                 [Finite q0, Finite q1, Finite q2, Finite q3]) \<Rightarrow>
                                  (case remapLinkPosition px py pz of (adjX, adjY, adjZ) \<Rightarrow>
                                     if \<bar>adjX\<bar> > 25 / 10 \<or> \<bar>adjY\<bar> > 25 / 10 \<or> \<bar>adjZ\<bar> > 25 / 10
                                     then s1
                                     else
                                       (case remapLinkQuat q0 q1 q2 q3 of (rW, rX, rY, rZ) \<Rightarrow>
                                          setNodeMatrix node
                                            (RotationTranslation (rX, rY, rZ, rW)
                                               (adjX * linkScale s1, adjY * linkScale s1,
                                                adjZ * linkScale s1))
                                            s1))
                              | _ \<Rightarrow> s1)))))"

fun applyLinks :: "(string \<times> G1LinkPose) list \<Rightarrow> g1robot \<Rightarrow> g1robot" where
  "applyLinks [] s = s"
| "applyLinks (entry # rest) s = applyLinks rest (applyLink entry s)"

definition applyLinkAnimation :: "(string \<times> G1LinkPose) list option \<Rightarrow> g1robot \<Rightarrow> g1robot" where
  "applyLinkAnimation links' s =
     (if \<not> enableLinkAnimation s then s
      else case links' of
             None \<Rightarrow> s
           | Some entries \<Rightarrow>
               if primitive s = None \<or> \<not> isReady s then s
               else applyLinks entries s)"

subsection \<open>Speed and runtime metrics\<close>

definition updateSpeedEstimate :: "tick_env \<Rightarrow> jsnum \<Rightarrow> g1robot \<Rightarrow> g1robot" where
  "updateSpeedEstimate env simTimeS' s =
     (let nowMs = (case simTimeS' of Finite v \<Rightarrow> v * 1000 | _ \<Rightarrow> date_speed env)
      in case lastPosePosition s of
           None \<Rightarrow>
             s\<lparr>lastPosePosition := Some (position s), lastPoseTimeMs := Some nowMs,
               velocity := 0, speed := 0\<rparr>
         | Some lastPos \<Rightarrow>
             (case lastPoseTimeMs s of
                None \<Rightarrow>
                  s\<lparr>lastPosePosition := Some (position s), lastPoseTimeMs := Some nowMs,
                    velocity := 0, speed := 0\<rparr>
              | Some lastMs \<Rightarrow>
                  let dt = max (3 / 100) ((nowMs - lastMs) / 1000);
                      dist = distance env (position s) lastPos;
                      speedMps = max 0 (dist / dt)
                  in s\<lparr>velocity := speedMps, speed := speedMps * (36 / 10),
                       lastPosePosition := Some (position s), lastPoseTimeMs := Some nowMs\<rparr>))"

definition maybeEmitPerfStatus :: "real \<Rightarrow> g1robot \<Rightarrow> g1robot" where
  "maybeEmitPerfStatus nowMs s =
     (let elapsedS = (nowMs - perfWindowStartedMs s) / 1000
      in if elapsedS < 5 then s
         else
           let avg = (if perfFramesCaptured s > 0
                      then perfFrameCaptureMsTotal s / real (perfFramesCaptured s) else 0);
               metrics = \<lparr>poseApplyHz = real (perfPoseApplied s) / elapsedS,
                          terrainQueryHz = real (perfTerrainQueries s) / elapsedS,
                          terrainProbeHz = real (perfTerrainProbes s) / elapsedS,
                          wsInHz = real (perfWsIn s) / elapsedS,
                          wsOutHz = real (perfWsOut s) / elapsedS,
                          avgCaptureMs = avg\<rparr>;
               s1 = onStatus (PerfClient metrics) (s\<lparr>lastMetrics := metrics\<rparr>)
           in s1\<lparr>perfWindowStartedMs := nowMs,
                 perfPoseApplied := 0,
                 perfTerrainQueries := 0,
                 perfTerrainProbes := 0,
                 perfFramesCaptured := 0,
                 perfFrameCaptureMsTotal := 0,
                 perfWsIn := 0,
                 perfWsOut := 0\<rparr>)"

subsection \<open>Applying a pose\<close>

text \<open>What \<^verbatim>\<open>emitNavigationContext\<close> hands to the callback, for the fields
  modelled here.\<close>

definition sanitizeNav :: "G1NavigationPayload \<Rightarrow> G1NavigationPayload" where
  "sanitizeNav n =
     \<lparr>nav_simTimeS = (case Number_of (nav_simTimeS n) of Finite v \<Rightarrow> Some (Finite v) | _ \<Rightarrow> None),
      nav_remainingWaypoints =
        (case Number_of (nav_remainingWaypoints n) of
           Finite v \<Rightarrow> Some (Finite (max 0 (of_int \<lfloor>v\<rfloor>)))
         | _ \<Rightarrow> None),
      nav_running = nav_running n\<rparr>"

definition emitNavigationContext :: "G1NavigationPayload option \<Rightarrow> g1robot \<Rightarrow> g1robot" where
  "emitNavigationContext rawNav s =
     (case rawNav of
        None \<Rightarrow> s
      | Some n \<Rightarrow> s\<lparr>navLog := navLog s @ [sanitizeNav n]\<rparr>)"

definition applyPose :: "tick_env \<Rightarrow> G1PosePayload \<Rightarrow> g1robot \<Rightarrow> g1robot" where
  "applyPose env payload s =
     (case root payload of
        None \<Rightarrow> s
      | Some r \<Rightarrow>
          let s0 = emitNavigationContext (nav payload) s
          in case Number_of (lat r) of
               Finite lat' \<Rightarrow>
                 (case Number_of (lon r) of
                    Finite lon' \<Rightarrow>
                      let nowMs = now_applyPose env;
                          stationary =
                            (case currentLat s0 of
                               None \<Rightarrow> False
                             | Some cLat \<Rightarrow>
                                 (case currentLon s0 of
                                    None \<Rightarrow> False
                                  | Some cLon \<Rightarrow>
                                      \<bar>lat' - cLat\<bar> < 1 / 10 ^ 9 \<and> \<bar>lon' - cLon\<bar> < 1 / 10 ^ 9))
                      in if stationary \<and> nowMs - lastStaticPoseRefreshMs s0 < 220 then s0
                         else
                           let s1 = s0\<lparr>lastStaticPoseRefreshMs := nowMs,
                                        currentLat := Some lat', currentLon := Some lon'\<rparr>
                           in case sampleTerrainHeight env lat' lon' s1 of (terrainHeight, s2) \<Rightarrow>
                              let altitude = terrainHeight + pelvisToGroundOffsetM;
                                  s3 = s2\<lparr>position := FromDegrees lon' lat' altitude\<rparr>
                              in case estimateMotionHeading lat' lon' s3 of (moveHeading, s4) \<Rightarrow>
                                 let q = sanitizeQuat (quat r);
                                     s5 = applyRootTransform env q moveHeading s4;
                                     s6 = applyLinkAnimation (links payload) s5;
                                     simTimeCandidate =
                                       Number_of
                                         (case nav payload of
                                            None \<Rightarrow> simTimeS payload
                                          | Some n \<Rightarrow>
                                              (case nav_simTimeS n of
                                                 None \<Rightarrow> simTimeS payload
                                               | Some v \<Rightarrow> Some v))
                                 in updateSpeedEstimate env
                                      (if isFinite simTimeCandidate then simTimeCandidate
                                       else Number_of (t payload))
                                      s6
                  | _ \<Rightarrow> s0)
             | _ \<Rightarrow> s0)"

subsection \<open>The per-tick update and the message handler\<close>

definition update :: "tick_env \<Rightarrow> g1robot \<Rightarrow> g1robot" where
  "update env s =
     (case latestPayload s of
        None \<Rightarrow> s
      | Some payload \<Rightarrow>
          if root payload = None then s
          else
            let stamp = Number_of (t payload)
            in if isFinite stamp \<and> stamp = lastProcessedT s then s
               else
                 let s1 = (if isFinite stamp then s\<lparr>lastProcessedT := stamp\<rparr>
                           else s\<lparr>lastProcessedT := Finite (date_update env)\<rparr>);
                     nowMs = now_update env
                 in if nowMs - lastPoseApplyMs s1 < minPoseApplyIntervalMs then s1
                    else
                      let s2 = s1\<lparr>lastPoseApplyMs := nowMs,
                                   perfPoseApplied := perfPoseApplied s1 + 1\<rparr>;
                          s3 = applyPose env payload s2
                      in maybeEmitPerfStatus (now_perf env) s3)"

text \<open>The \<^verbatim>\<open>onmessage\<close> handler; \<open>None\<close> is a frame that \<^verbatim>\<open>JSON.parse\<close>
  rejects.\<close>

definition onmessage :: "G1PosePayload option \<Rightarrow> g1robot \<Rightarrow> g1robot" where
  "onmessage data s =
     (let s1 = s\<lparr>perfWsIn := perfWsIn s + 1\<rparr>
      in case data of
           None \<Rightarrow> s1
         | Some payload \<Rightarrow>
             (case (if msg_type payload = Some ''status'' then message payload else None) of
                Some m \<Rightarrow> onStatus (StatusText m) s1
              | None \<Rightarrow>
                  (case (if payload_error payload = Some [] then None else payload_error payload) of
                     Some e \<Rightarrow> onStatus (StatusText e) s1
                   | None \<Rightarrow>
                       if root payload \<noteq> None then s1\<lparr>latestPayload := Some payload\<rparr>
                       else s1)))"

subsection \<open>Stream connection\<close>

definition emitStreamState :: "StreamState \<Rightarrow> g1robot \<Rightarrow> g1robot" where
  "emitStreamState state s = s\<lparr>streamStates := streamStates s @ [state]\<rparr>"

text \<open>\<^verbatim>\<open>window.clearTimeout\<close> and \<^verbatim>\<open>window.clearInterval\<close>: the timer with that id is
  no longer active.\<close>

definition clearTimer :: "nat \<Rightarrow> g1robot \<Rightarrow> g1robot" where
  "clearTimer i s = s\<lparr>activeTimers := filter (\<lambda>entry. fst entry \<noteq> i) (activeTimers s)\<rparr>"

text \<open>\<^verbatim>\<open>window.setTimeout(() => this.connectStream(), delay)\<close>: a new active timer
  under the next free id, which is returned.\<close>

definition setReconnectTimeout :: "nat \<Rightarrow> g1robot \<Rightarrow> nat \<times> g1robot" where
  "setReconnectTimeout delay s =
     (nextTimerId s,
      s\<lparr>activeTimers := activeTimers s @ [(nextTimerId s, ReconnectTimeout delay)],
        nextTimerId := nextTimerId s + 1\<rparr>)"

text \<open>\<^verbatim>\<open>WebSocket.close()\<close>: a socket that is connecting or open starts closing;
  on a socket that is closing or closed the call does nothing.\<close>

definition closeSocket :: "nat \<Rightarrow> g1robot \<Rightarrow> g1robot" where
  "closeSocket i s =
     (if i < length (sockets s) \<and> (sockets s ! i = CONNECTING \<or> sockets s ! i = OPEN)
      then s\<lparr>sockets := (sockets s)[i := CLOSING]\<rparr>
      else s)"

text \<open>Of a pending built-in capture only the three flags are modelled; removing
  the render listener and restoring the camera act on the scene.\<close>

definition cancelPendingVisionCapture :: "g1robot \<Rightarrow> g1robot" where
  "cancelPendingVisionCapture s =
     (let s1 = (if pendingVisionCaptureListener s
                then s\<lparr>pendingVisionCaptureListener := False\<rparr> else s);
          s2 = (if pendingVisionCaptureRestore s1
                then s1\<lparr>pendingVisionCaptureRestore := False\<rparr> else s1)
      in s2\<lparr>pendingVisionCapture := False\<rparr>)"

definition stopPerceptionStreaming :: "g1robot \<Rightarrow> g1robot" where
  "stopPerceptionStreaming s =
     (let s1 = cancelPendingVisionCapture s;
          s2 = (case frameCaptureTimer s1 of
                  None \<Rightarrow> s1
                | Some i \<Rightarrow> (clearTimer i s1)\<lparr>frameCaptureTimer := None\<rparr>)
      in case terrainProbeTimer s2 of
           None \<Rightarrow> s2
         | Some i \<Rightarrow> (clearTimer i s2)\<lparr>terrainProbeTimer := None\<rparr>)"

text \<open>\<^verbatim>\<open>connectStream\<close> up to the creation of the socket. The new socket is the
  next entry of \<open>sockets\<close>; its handlers are the functions \<open>onmessage\<close>,
  \<open>onerror\<close> and \<open>onclose\<close>. The \<^verbatim>\<open>onopen\<close> handler starts the capture scheduler,
  which is outside this development.\<close>

definition connectStream :: "g1robot \<Rightarrow> g1robot" where
  "connectStream s =
     (if destroyed s then s
      else
        let s1 = stopPerceptionStreaming s;
            s2 = (case ws s1 of
                    None \<Rightarrow> s1
                  | Some i \<Rightarrow> (closeSocket i s1)\<lparr>ws := None\<rparr>);
            s3 = emitStreamState connecting s2
        in s3\<lparr>sockets := sockets s3 @ [CONNECTING], ws := Some (length (sockets s3))\<rparr>)"

definition onerror :: "g1robot \<Rightarrow> g1robot" where
  "onerror s = stopPerceptionStreaming (emitStreamState offline s)"

definition onclose :: "g1robot \<Rightarrow> g1robot" where
  "onclose s =
     (let s1 = emitStreamState offline s;
          s2 = stopPerceptionStreaming s1
      in if destroyed s2 then s2
         else
           let s3 = (case reconnectTimer s2 of
                       None \<Rightarrow> s2
                     | Some i \<Rightarrow> clearTimer i s2)
           in case setReconnectTimeout 1500 s3 of
                (i, s4) \<Rightarrow> s4\<lparr>reconnectTimer := Some i\<rparr>)"

text \<open>\<^verbatim>\<open>Vehicle.destroy\<close>.\<close>

definition Vehicle_destroy :: "g1robot \<Rightarrow> g1robot" where
  "Vehicle_destroy s =
     (case primitive s of
        None \<Rightarrow> s
      | Some p \<Rightarrow> s\<lparr>primitive := None, isReady := False\<rparr>)"

definition destroy :: "g1robot \<Rightarrow> g1robot" where
  "destroy s =
     (let s1 = s\<lparr>destroyed := True\<rparr>;
          s2 = cancelPendingVisionCapture s1;
          s3 = stopPerceptionStreaming s2;
          s4 = (case reconnectTimer s3 of
                  None \<Rightarrow> s3
                | Some i \<Rightarrow> (clearTimer i s3)\<lparr>reconnectTimer := None\<rparr>);
          s5 = (case ws s4 of
                  None \<Rightarrow> s4
                | Some i \<Rightarrow> (closeSocket i s4)\<lparr>ws := None\<rparr>);
          s6 = emitStreamState offline s5
      in Vehicle_destroy s6)"

subsection \<open>Events\<close>

text \<open>
  What can happen to the object, one event at a time (the code is
  single-threaded): a frame arrives on a socket, a socket reports an error, a
  socket closes (the browser marks it closed and calls the handler), an active
  reconnect timeout fires (the browser drops it and calls \<^verbatim>\<open>connectStream\<close>),
  \<^verbatim>\<open>initialize\<close> calls \<^verbatim>\<open>connectStream\<close>, the render loop calls \<^verbatim>\<open>update\<close>, a caller
  reports obstacles, or the entity is destroyed.
\<close>

fun isReconnectTimeout :: "timer \<Rightarrow> bool" where
  "isReconnectTimeout (ReconnectTimeout _) = True"
| "isReconnectTimeout _ = False"

datatype event =
    WsMessage "G1PosePayload option"
  | WsError
  | WsClose nat
  | ReconnectTimerFires nat
  | ConnectStream
  | Tick tick_env
  | SendObstacles real "obstacle list"
  | Destroy

fun step :: "event \<Rightarrow> g1robot \<Rightarrow> g1robot" where
  "step (WsMessage data) s = onmessage data s"
| "step WsError s = onerror s"
| "step (WsClose i) s = onclose (s\<lparr>sockets := (sockets s)[i := CLOSED]\<rparr>)"
| "step (ReconnectTimerFires i) s =
     (if list_ex (\<lambda>entry. fst entry = i \<and> isReconnectTimeout (snd entry)) (activeTimers s)
      then connectStream (clearTimer i s)
      else s)"
| "step ConnectStream s = connectStream s"
| "step (Tick env) s = update env s"
| "step (SendObstacles now obstacles) s = sendDynamicObstacles now obstacles s"
| "step Destroy s = destroy s"

fun run :: "event list \<Rightarrow> g1robot \<Rightarrow> g1robot" where
  "run [] s = s"
| "run (e # es) s = run es (step e s)"

text \<open>Every active timer is the one its field of the object refers to.\<close>

fun timerField :: "timer \<Rightarrow> g1robot \<Rightarrow> nat option" where
  "timerField (ReconnectTimeout _) s = reconnectTimer s"
| "timerField (FrameCaptureInterval _) s = frameCaptureTimer s"
| "timerField (TerrainProbeInterval _) s = terrainProbeTimer s"

definition timersInv :: "g1robot \<Rightarrow> bool" where
  "timersInv s = list_all (\<lambda>entry. timerField (snd entry) s = Some (fst entry)) (activeTimers s)"

text \<open>The number of connection attempts so far: the sockets created.\<close>

definition connectAttempts :: "g1robot \<Rightarrow> nat" where
  "connectAttempts s = length (sockets s)"

subsection \<open>Views of the object\<close>

text \<open>The fields of the connection and of the payload bookkeeping, which the
  pose pipeline below \<^verbatim>\<open>update\<close> never writes, and the fields of the heading
  calibration.\<close>

definition poseFrame ::
  "g1robot \<Rightarrow> nat option \<times> readyState list \<times> nat option \<times> bool \<times> (nat \<times> timer) list
     \<times> nat \<times> StreamState list \<times> nat option \<times> nat option
     \<times> G1PosePayload option \<times> jsnum \<times> real" where
  "poseFrame s =
     (ws s, sockets s, reconnectTimer s, destroyed s, activeTimers s, nextTimerId s,
      streamStates s, frameCaptureTimer s, terrainProbeTimer s,
      latestPayload s, lastProcessedT s, lastPoseApplyMs s)"

definition calibrationView :: "g1robot \<Rightarrow> real \<times> nat \<times> bool \<times> nat \<times> real list" where
  "calibrationView s =
     (modelHeadingOffset s, headingCalibrationSamples s, headingFastLockComplete s,
      headingAlignedStreak s, storageWrites s)"

subsection \<open>Orientation quaternions\<close>

text \<open>The identity in the order of the message (w, x, y, z), and the raw values
  that \<^verbatim>\<open>sanitizeQuat\<close> does not take over: no array, an array of another length,
  or an entry that is not finite.\<close>

definition identityQuat :: "jsnum list" where
  "identityQuat = [Finite 1, Finite 0, Finite 0, Finite 0]"

definition invalidQuat :: "jsnum list option \<Rightarrow> bool" where
  "invalidQuat raw =
     (case raw of None \<Rightarrow> True | Some q \<Rightarrow> length q \<noteq> 4 \<or> \<not> list_all isFinite q)"

subsection \<open>Pending reconnects\<close>

text \<open>The reconnect timeouts that are still to fire, and the state after
  teardown: destroyed, with no reconnect timeout pending.\<close>

definition pendingReconnects :: "g1robot \<Rightarrow> (nat \<times> timer) list" where
  "pendingReconnects s = filter (\<lambda>entry. isReconnectTimeout (snd entry)) (activeTimers s)"

definition shutDown :: "g1robot \<Rightarrow> bool" where
  "shutDown s = (destroyed s \<and> pendingReconnects s = [])"

text \<open>The connection fields, the timer invariant and the shut-down state depend
  on the object only through these fields.\<close>

definition connectionView ::
  "g1robot \<Rightarrow> nat option \<times> readyState list \<times> nat option \<times> bool \<times> (nat \<times> timer) list
     \<times> nat \<times> StreamState list \<times> nat option \<times> nat option" where
  "connectionView s =
     (ws s, sockets s, reconnectTimer s, destroyed s, activeTimers s, nextTimerId s,
      streamStates s, frameCaptureTimer s, terrainProbeTimer s)"

subsection \<open>Example inputs\<close>

text \<open>A robot whose channel is open, and two obstacle candidates: a car with
  a radius of two metres, and one with a negative radius.\<close>

definition openRobot :: g1robot where
  "openRobot = (G1Robot_new (FromDegrees 0 0 0) None 0)\<lparr>ws := Some 0, sockets := [OPEN]\<rparr>"

definition carObstacle :: obstacle where
  "carObstacle =
     \<lparr>obstacle_id = ''car-1'', obstacle_lat = Finite 1, obstacle_lon = Finite 2,
      radiusM = Finite 2, kind = ''vehicle'', speedMps = Finite 3\<rparr>"

definition badObstacle :: obstacle where
  "badObstacle =
     \<lparr>obstacle_id = ''car-2'', obstacle_lat = Finite 1, obstacle_lon = Finite 2,
      radiusM = Finite (- 1), kind = ''vehicle'', speedMps = Finite 3\<rparr>"

text \<open>A moving robot in fast lock, with a given streak and sample count.\<close>

definition calibratingRobot :: "nat \<Rightarrow> nat \<Rightarrow> g1robot" where
  "calibratingRobot streak samples =
     (G1Robot_new (FromDegrees 0 0 0) None 0)
       \<lparr>velocity := 1, headingAlignedStreak := streak, headingCalibrationSamples := samples\<rparr>"

text \<open>A tick at a given time over a scene whose globe height is given and whose
  clamp query finds nothing, and a robot standing on a cached terrain height of
  10.\<close>

definition exampleEnv :: "real \<Rightarrow> jsnum \<Rightarrow> tick_env" where
  "exampleEnv now globeHeight =
     \<lparr>date_update = now, now_update = now, now_applyPose = now, now_terrain = now,
      date_speed = now, now_perf = now,
      sceneQuery = (\<lambda>la lo. Probed globeHeight None),
      fromQuaternion = (\<lambda>q. (Finite 0, Finite 0, Finite 0)),
      distance = (\<lambda>a b. 0)\<rparr>"

definition groundedRobot :: g1robot where
  "groundedRobot =
     (G1Robot_new (FromDegrees 0 0 0) None 0)
       \<lparr>sceneRef := True, terrainHeightValid := True, terrainHeightM := 10\<rparr>"

text \<open>A pose message at latitude \<open>latitude\<close> and longitude 2, a robot after
  \<^verbatim>\<open>initialize\<close> (scene and model present), the same robot holding a message it
  has not processed, and the same robot 100 ms after it applied message 6, now
  holding message 7.\<close>

definition examplePayload ::
  "jsnum option \<Rightarrow> jsnum option \<Rightarrow> jsnum list option \<Rightarrow> G1PosePayload" where
  "examplePayload stamp latitude q =
     \<lparr>msg_type = None, message = None, t = stamp, simTimeS = None,
      root = Some \<lparr>lat = latitude, lon = Some (Finite 2), height = Some (Finite 0), quat = q\<rparr>,
      links = None, nav = None, payload_error = None\<rparr>"

definition readyRobot :: g1robot where
  "readyRobot =
     (G1Robot_new (FromDegrees 0 0 0) None 0)
       \<lparr>sceneRef := True, isReady := True,
        primitive := Some \<lparr>modelMatrix = HprFrame (FromDegrees 0 0 0) 0 (Finite 0) (Finite 0),
                           nodes = Map.empty\<rparr>\<rparr>"

definition busyRobot :: g1robot where
  "busyRobot =
     readyRobot\<lparr>latestPayload :=
                  Some (examplePayload (Some (Finite 7)) (Some (Finite 1)) (Some identityQuat)),
                lastProcessedT := Finite 6, lastPoseApplyMs := 100\<rparr>"

definition waitingRobot :: "jsnum option \<Rightarrow> g1robot" where
  "waitingRobot stamp =
     readyRobot\<lparr>latestPayload :=
                  Some (examplePayload stamp (Some (Finite 1)) (Some identityQuat))\<rparr>"

text \<open>A robot whose first connection attempt is under way.\<close>

definition connectedRobot :: g1robot where
  "connectedRobot = connectStream (G1Robot_new (FromDegrees 0 0 0) None 0)"

text \<open>The doubles that JavaScript reads for the literals 0.3, 12.3 and 9.3, and
  for 0.1, 2.1 and 1.1.\<close>

definition double_0_3 :: real where
  "double_0_3 = 5404319552844595 / 2 ^ 54"

definition double_12_3 :: real where
  "double_12_3 = 3462142213541069 / 2 ^ 48"

definition double_9_3 :: real where
  "double_9_3 = 2617717283409101 / 2 ^ 48"

definition double_0_1 :: real where
  "double_0_1 = 3602879701896397 / 2 ^ 55"

definition double_2_1 :: real where
  "double_2_1 = 4728779608739021 / 2 ^ 51"

definition double_1_1 :: real where
  "double_1_1 = 2476979795053773 / 2 ^ 51"



section \<open>Obstacle reporting\<close>

lemma isFinite_iff: "isFinite x \<longleftrightarrow> (\<exists>r. x = Finite r)"
  by (cases x) simp_all

lemma keepObstacle_clean: "keepObstacle (cleanObstacle c) = passesValidation c"
  by (cases "radiusM c"; cases "obstacle_lat c"; cases "obstacle_lon c")
     (simp_all add: keepObstacle_def cleanObstacle_def passesValidation_def)

lemma cleaned_eq:
  "filter keepObstacle (map cleanObstacle obs) = map cleanObstacle (filter passesValidation obs)"
  by (induction obs) (simp_all add: keepObstacle_clean)

lemma cleanObstacle_id: "kind c \<noteq> [] \<Longrightarrow> cleanObstacle c = c"
  by (simp add: cleanObstacle_def)

text \<open>
  Claim C9. While the channel is open, \<^verbatim>\<open>sendDynamicObstacles\<close> sends one
  \<^verbatim>\<open>dynamic_obstacles\<close> message whose entries are exactly the candidates that
  pass validation (non-empty id, finite latitude, longitude and radius, radius
  above zero), in input order, each in the form the \<^verbatim>\<open>map\<close> step gives it
  (which is the candidate itself whenever its \<^verbatim>\<open>kind\<close> is not empty); when no
  candidate passes validation nothing is sent and the object is left as it was.
\<close>

theorem C9_obstacle_validation:
  assumes "canSendToServer s"
  shows "(filter passesValidation obs \<noteq> [] \<longrightarrow>
            outbox (sendDynamicObstacles now obs s) =
              outbox s @ [DynamicObstaclesMsg (dynamicObstacleSeq s + 1) now
                            (map cleanObstacle (filter passesValidation obs))])
         \<and> (filter passesValidation obs = [] \<longrightarrow> sendDynamicObstacles now obs s = s)
         \<and> (\<forall>c \<in> set obs. kind c \<noteq> [] \<longrightarrow> cleanObstacle c = c)"
proof -
  have can: "canSendToServer (s\<lparr>dynamicObstacleSeq := n\<rparr>)" for n
    using assms by (simp add: canSendToServer_def split: option.splits)
  have ws: "ws s \<noteq> None"
    using assms by (auto simp: canSendToServer_def split: option.splits)
  have sent: "filter passesValidation obs \<noteq> [] \<Longrightarrow>
      outbox (sendDynamicObstacles now obs s) =
        outbox s @ [DynamicObstaclesMsg (dynamicObstacleSeq s + 1) now
                      (map cleanObstacle (filter passesValidation obs))]"
  proof -
    assume ne: "filter passesValidation obs \<noteq> []"
    then have "obs \<noteq> []" by auto
    with ne show ?thesis
      using assms can ws
      by (simp add: sendDynamicObstacles_def cleaned_eq Let_def sendWsPayload_def)
  qed
  have none: "filter passesValidation obs = [] \<Longrightarrow> sendDynamicObstacles now obs s = s"
    by (simp add: sendDynamicObstacles_def cleaned_eq Let_def)
  show ?thesis
    using sent none by (simp add: cleanObstacle_id)
qed


theorem C9_obstacle_validation_witness:
  "canSendToServer openRobot
   \<and> outbox (sendDynamicObstacles 5 [carObstacle, badObstacle] openRobot) =
       [DynamicObstaclesMsg 1 5 [carObstacle]]
   \<and> sendDynamicObstacles 5 [badObstacle] openRobot = openRobot"
proof -
  have can: "canSendToServer openRobot"
    by (simp add: openRobot_def canSendToServer_def G1Robot_new_def)
  have car: "passesValidation carObstacle" and bad: "\<not> passesValidation badObstacle"
    by (simp_all add: passesValidation_def carObstacle_def badObstacle_def)
  have out: "outbox openRobot = []" and seq: "dynamicObstacleSeq openRobot = 0"
    by (simp_all add: openRobot_def G1Robot_new_def)
  have keep: "cleanObstacle carObstacle = carObstacle"
    by (simp add: cleanObstacle_def carObstacle_def)
  show ?thesis
    using C9_obstacle_validation [OF can, of "[carObstacle, badObstacle]" 5]
          C9_obstacle_validation [OF can, of "[badObstacle]" 5]
    by (simp add: can car bad out seq keep)
qed

section \<open>Heading blending\<close>

lemma zeroToTwoPi_range: "0 \<le> zeroToTwoPi a \<and> zeroToTwoPi a \<le> TWO_PI"
proof (cases "a \<ge> 0 \<and> a \<le> TWO_PI")
  case True
  then show ?thesis by (simp add: zeroToTwoPi_def)
next
  case False
  have tp: "0 < TWO_PI" by (simp add: TWO_PI_def)
  have lo: "of_int \<lfloor>a / TWO_PI\<rfloor> * TWO_PI \<le> a"
    using floor_divide_lower [OF tp] .
  have hi: "a < (of_int \<lfloor>a / TWO_PI\<rfloor> + 1) * TWO_PI"
    using floor_divide_upper [OF tp] .
  have eq: "zeroToTwoPi a = a - TWO_PI * of_int \<lfloor>a / TWO_PI\<rfloor>"
    using False by (auto simp: zeroToTwoPi_def)
  show ?thesis
    using lo hi unfolding eq by (simp add: algebra_simps)
qed

lemma zeroToTwoPi_turns: "\<exists>k::int. zeroToTwoPi a = a + TWO_PI * of_int k"
proof (cases "a \<ge> 0 \<and> a \<le> TWO_PI")
  case True
  then have "zeroToTwoPi a = a + TWO_PI * of_int 0" by (simp add: zeroToTwoPi_def)
  then show ?thesis by blast
next
  case False
  then have "zeroToTwoPi a = a + TWO_PI * of_int (- \<lfloor>a / TWO_PI\<rfloor>)"
    by (auto simp: zeroToTwoPi_def)
  then show ?thesis by blast
qed


text \<open>
  Claim C7. For start and end angles and a blend factor in \<open>[0, 1]\<close>,
  \<^verbatim>\<open>lerpAngle\<close> moves from start toward end along the shortest circular arc:
  there is a signed arc \<open>d\<close> of at most half a turn leading from start to the
  direction of end, the result is the direction reached after the fraction
  \<open>factor\<close> of that arc, and it lies in \<open>[0, 2\<pi>]\<close>.
\<close>

theorem C7_lerpAngle_shortest_arc:
  assumes "0 \<le> factor" and "factor \<le> 1"
  shows "\<exists>d. \<bar>d\<bar> \<le> pi \<and> sameDirection (start + d) end'
             \<and> sameDirection (lerpAngle start end' factor) (start + factor * d)
             \<and> \<bar>factor * d\<bar> \<le> \<bar>d\<bar>
             \<and> 0 \<le> lerpAngle start end' factor \<and> lerpAngle start end' factor \<le> TWO_PI"
proof -
  define ns where "ns = zeroToTwoPi start"
  define ne where "ne = zeroToTwoPi end'"
  define d0 where "d0 = ne - ns"
  define d where "d = (if d0 > pi then d0 - TWO_PI else if d0 < - pi then d0 + TWO_PI else d0)"
  have res: "lerpAngle start end' factor = zeroToTwoPi (ns + d * factor)"
    by (simp add: lerpAngle_def Let_def ns_def ne_def d0_def d_def)
  obtain k1 :: int where k1: "ns = start + TWO_PI * of_int k1"
    using zeroToTwoPi_turns [of start] ns_def by auto
  obtain k2 :: int where k2: "ne = end' + TWO_PI * of_int k2"
    using zeroToTwoPi_turns [of end'] ne_def by auto
  obtain k3 :: int where k3: "zeroToTwoPi (ns + d * factor) = ns + d * factor + TWO_PI * of_int k3"
    using zeroToTwoPi_turns [of "ns + d * factor"] by auto
  have rs: "0 \<le> ns \<and> ns \<le> TWO_PI" "0 \<le> ne \<and> ne \<le> TWO_PI"
    using zeroToTwoPi_range by (simp_all add: ns_def ne_def)
  then have d0b: "- TWO_PI \<le> d0 \<and> d0 \<le> TWO_PI" by (simp add: d0_def)
  have dabs: "\<bar>d\<bar> \<le> pi"
    using d0b by (auto simp: d_def TWO_PI_def)
  obtain j :: int where j: "d = d0 + TWO_PI * of_int j"
  proof -
    have "d = d0 + TWO_PI * of_int (-1) \<or> d = d0 + TWO_PI * of_int 1 \<or> d = d0 + TWO_PI * of_int 0"
      by (simp add: d_def)
    then show ?thesis using that by blast
  qed
  have a: "sameDirection (start + d) end'"
  proof -
    have "start + d = end' + TWO_PI * of_int (k2 - k1 + j)"
      using k1 k2 j by (simp add: d0_def algebra_simps)
    then show ?thesis unfolding sameDirection_def by blast
  qed
  have b: "sameDirection (lerpAngle start end' factor) (start + factor * d)"
  proof -
    have "lerpAngle start end' factor = (start + factor * d) + TWO_PI * of_int (k1 + k3)"
      using res k3 k1 by (simp add: algebra_simps)
    then show ?thesis unfolding sameDirection_def by blast
  qed
  have c: "\<bar>factor * d\<bar> \<le> \<bar>d\<bar>"
    using assms by (simp add: abs_mult mult_left_le_one_le)
  show ?thesis
    using dabs a b c zeroToTwoPi_range [of "ns + d * factor"] res by auto
qed


lemma pi_cmp: "\<not> pi < - (17 * pi / 9)" "- (17 * pi / 9) < - pi"
  using pi_gt_zero by linarith+

text \<open>From 350 degrees toward 10 degrees: a quarter of the way is 355 degrees,
  three quarters of the way is 5 degrees.\<close>

theorem C7_lerpAngle_shortest_arc_witness:
  "(0::real) \<le> 1 / 4 \<and> (1::real) / 4 \<le> 1
   \<and> (\<exists>d. \<bar>d\<bar> \<le> pi \<and> sameDirection (toRadians 350 + d) (toRadians 10)
          \<and> sameDirection (toRadians 355) (toRadians 350 + 1 / 4 * d))
   \<and> lerpAngle (toRadians 350) (toRadians 10) (1 / 4) = toRadians 355
   \<and> lerpAngle (toRadians 350) (toRadians 10) (3 / 4) = toRadians 5"
proof -
  have ex1: "lerpAngle (toRadians 350) (toRadians 10) (1 / 4) = toRadians 355"
    by (simp add: lerpAngle_def zeroToTwoPi_def toRadians_def TWO_PI_def Let_def pi_cmp)
  have ex2: "lerpAngle (toRadians 350) (toRadians 10) (3 / 4) = toRadians 5"
    by (simp add: lerpAngle_def zeroToTwoPi_def toRadians_def TWO_PI_def Let_def pi_cmp)
  have "\<exists>d. \<bar>d\<bar> \<le> pi \<and> sameDirection (toRadians 350 + d) (toRadians 10)
          \<and> sameDirection (toRadians 355) (toRadians 350 + 1 / 4 * d)"
    using C7_lerpAngle_shortest_arc [of "1 / 4" "toRadians 350" "toRadians 10"]
    unfolding ex1 by auto
  then show ?thesis using ex1 ex2 by simp
qed

section \<open>Heading calibration\<close>

lemma fast_step:
  assumes "velocity s \<ge> 12 / 100" and "headingCalibrationSamples s < 360"
    and "\<bar>headingError mh s\<bar> \<le> toRadians 70" and "\<not> headingFastLockComplete s"
  shows "headingCalibrationSamples (maybeAutoCalibrateHeading (Some mh) s) = headingCalibrationSamples s + 1"
    and "headingAlignedStreak (maybeAutoCalibrateHeading (Some mh) s) = alignedStreakAfter (headingError mh s) s"
    and "headingFastLockComplete (maybeAutoCalibrateHeading (Some mh) s) =
          (alignedStreakAfter (headingError mh s) s \<ge> 20 \<or> headingCalibrationSamples s + 1 \<ge> 90)"
    and "storageWrites (maybeAutoCalibrateHeading (Some mh) s) =
          (if alignedStreakAfter (headingError mh s) s \<ge> 20 \<or> headingCalibrationSamples s + 1 \<ge> 90
           then storageWrites s @ [modelHeadingOffset (maybeAutoCalibrateHeading (Some mh) s)]
           else storageWrites s)"
    and "statusLog (maybeAutoCalibrateHeading (Some mh) s) =
          (if alignedStreakAfter (headingError mh s) s \<ge> 20 \<or> headingCalibrationSamples s + 1 \<ge> 90
           then statusLog s @ [HeadingLockComplete (toDegrees (modelHeadingOffset (maybeAutoCalibrateHeading (Some mh) s)))]
           else statusLog s)"
  using assms
  by (simp_all add: maybeAutoCalibrateHeading_def Let_def alignedStreakAfter_def
        persistHeadingOffset_def onStatus_def)

lemma fastLockInv_step: "fastLockInv s \<Longrightarrow> fastLockInv (maybeAutoCalibrateHeading m s)"
  by (cases m)
     (auto simp: maybeAutoCalibrateHeading_def Let_def fastLockInv_def
        persistHeadingOffset_def onStatus_def)



text \<open>
  Claim C4. For an accepted calibration sample during fast lock (speed at least
  0.12, error of at most 70 degrees, fewer than 360 samples so far) the sample
  count grows by one, the streak grows by one when the error is at most 15
  degrees and is reset otherwise, and fast lock ends with this sample exactly
  when the streak has reached 20 or the count has reached 90. When it ends, the
  flag is set, the offset is written to storage and completion is announced;
  when it does not, nothing is written or announced. While fast lock runs the
  streak stays below 20 and the count below 90, so the exit happens at the
  first sample at which one of the two bounds is reached.
\<close>

theorem C4_fast_lock_exit:
  assumes "velocity s \<ge> 12 / 100" and "headingCalibrationSamples s < 360"
    and "\<bar>headingError mh s\<bar> \<le> toRadians 70" and "\<not> headingFastLockComplete s"
  shows "let s' = maybeAutoCalibrateHeading (Some mh) s;
             streak' = alignedStreakAfter (headingError mh s) s
         in headingCalibrationSamples s' = headingCalibrationSamples s + 1
            \<and> headingAlignedStreak s' = streak'
            \<and> (headingFastLockComplete s' \<longleftrightarrow>
                 streak' \<ge> 20 \<or> headingCalibrationSamples s + 1 \<ge> 90)
            \<and> (headingFastLockComplete s' \<longrightarrow>
                 storageWrites s' = storageWrites s @ [modelHeadingOffset s'] \<and>
                 statusLog s' =
                   statusLog s @ [HeadingLockComplete (toDegrees (modelHeadingOffset s'))])
            \<and> (\<not> headingFastLockComplete s' \<longrightarrow>
                 storageWrites s' = storageWrites s \<and> statusLog s' = statusLog s)
            \<and> (fastLockInv s \<and> headingFastLockComplete s' \<longrightarrow>
                 streak' = 20 \<or> headingCalibrationSamples s + 1 = 90)
            \<and> (fastLockInv s \<longrightarrow> fastLockInv s')"
proof -
  have inv: "fastLockInv s \<Longrightarrow> alignedStreakAfter (headingError mh s) s \<le> 20
      \<and> headingCalibrationSamples s + 1 \<le> 90"
    using assms(4) by (simp add: fastLockInv_def alignedStreakAfter_def)
  show ?thesis
    unfolding Let_def
    using fast_step [OF assms] inv fastLockInv_step [of s "Some mh"]
    by auto
qed

lemma fastLockInv_new: "fastLockInv (G1Robot_new p stored now)"
  by (simp add: fastLockInv_def G1Robot_new_def)

lemma normalizeSignedAngle_real_id:
  "- pi \<le> v \<Longrightarrow> v \<le> pi \<Longrightarrow> normalizeSignedAngle_real v = v"
  by (simp add: normalizeSignedAngle_real_def normalizeSignedAngle_real_down.simps
        normalizeSignedAngle_real_up.simps)

lemma headingError_calibrating: "headingError 0 (calibratingRobot a b) = 0"
  by (simp add: headingError_def calibratingRobot_def G1Robot_new_def normalizeSignedAngle_real_id)

theorem C4_fast_lock_exit_witness:
  "velocity (calibratingRobot 19 30) \<ge> 12 / 100
   \<and> headingCalibrationSamples (calibratingRobot 19 30) < 360
   \<and> \<bar>headingError 0 (calibratingRobot 19 30)\<bar> \<le> toRadians 70
   \<and> \<not> headingFastLockComplete (calibratingRobot 19 30)
   \<and> fastLockInv (calibratingRobot 19 30)
   \<and> headingFastLockComplete (maybeAutoCalibrateHeading (Some 0) (calibratingRobot 19 30))
   \<and> headingAlignedStreak (maybeAutoCalibrateHeading (Some 0) (calibratingRobot 19 30)) = 20
   \<and> headingCalibrationSamples (maybeAutoCalibrateHeading (Some 0) (calibratingRobot 19 30)) = 31
   \<and> storageWrites (maybeAutoCalibrateHeading (Some 0) (calibratingRobot 19 30)) = [0]
   \<and> \<not> headingFastLockComplete (maybeAutoCalibrateHeading (Some 0) (calibratingRobot 18 30))
   \<and> headingFastLockComplete (maybeAutoCalibrateHeading (Some 0) (calibratingRobot 3 89))"
proof -
  have vel: "velocity (calibratingRobot a b) = 1" for a b
    by (simp add: calibratingRobot_def G1Robot_new_def)
  have pre: "velocity (calibratingRobot a b) \<ge> 12 / 100"
    "\<not> headingFastLockComplete (calibratingRobot a b)"
    "headingCalibrationSamples (calibratingRobot a b) = b"
    "headingAlignedStreak (calibratingRobot a b) = a"
    "storageWrites (calibratingRobot a b) = []"
    "modelHeadingOffset (calibratingRobot a b) = 0" for a b
    by (simp_all add: calibratingRobot_def G1Robot_new_def)
  have err: "\<bar>headingError 0 (calibratingRobot a b)\<bar> \<le> toRadians 70" for a b
    by (simp add: headingError_calibrating toRadians_def)
  have streak: "alignedStreakAfter (headingError 0 (calibratingRobot a b)) (calibratingRobot a b) = a + 1" for a b
    by (simp add: alignedStreakAfter_def headingError_calibrating pre toRadians_def)
  have off: "modelHeadingOffset (maybeAutoCalibrateHeading (Some 0) (calibratingRobot 19 30)) = 0"
    by (simp add: maybeAutoCalibrateHeading_def Let_def pre headingError_calibrating clamp_def
          toRadians_def persistHeadingOffset_def onStatus_def)
  have inv: "fastLockInv (calibratingRobot 19 30)"
    by (simp add: fastLockInv_def pre)
  have lt: "headingCalibrationSamples (calibratingRobot a b) < 360" if "b < 360" for a b
    using that by (simp add: pre)
  note a = C4_fast_lock_exit [OF pre(1) lt err pre(2), of 30 19, simplified Let_def streak pre]
  note b = C4_fast_lock_exit [OF pre(1) lt err pre(2), of 30 18, simplified Let_def streak pre]
  note c = C4_fast_lock_exit [OF pre(1) lt err pre(2), of 89 3, simplified Let_def streak pre]
  show ?thesis
    using a b c by (simp add: vel pre err off inv)
qed

section \<open>Rounding to the nearest double\<close>

lemma roundTiesToEven_error: "\<bar>of_int (roundTiesToEven y) - y\<bar> \<le> 1 / 2"
  unfolding roundTiesToEven_def Let_def by (auto; linarith)

lemma roundTiesToEven_of_int: "roundTiesToEven (of_int m) = m"
  by (simp add: roundTiesToEven_def)

lemma quantum_pos: "0 < quantum x"
  by (simp add: quantum_def)

text \<open>The spacing at a value between two neighbouring powers of two.\<close>

lemma quantum_exp:
  assumes "2 powr of_int e \<le> \<bar>x\<bar>" and "\<bar>x\<bar> < 2 powr of_int (e + 1)" and "- 1022 \<le> e"
  shows "quantum x = 2 powr of_int (e - 52)"
proof -
  have pos: "0 < \<bar>x\<bar>"
    using assms(1) powr_gt_zero [of 2 "of_int e"] by linarith
  have "\<lfloor>log 2 \<bar>x\<bar>\<rfloor> = e"
    using floor_log_eq_powr_iff [of "\<bar>x\<bar>" 2 e] pos assms(1,2) by simp
  then show ?thesis
    using assms(3) by (simp add: quantum_def max_def)
qed

lemma quantum_pow:
  assumes "2 ^ n \<le> \<bar>x\<bar>" and "\<bar>x\<bar> < 2 * 2 ^ n"
  shows "quantum x = 2 ^ n / 2 ^ 52"
proof -
  have a: "2 powr of_int (int n) = (2::real) ^ n"
    by (simp add: powr_realpow)
  have b: "2 powr of_int (int n + 1) = (2::real) * 2 ^ n"
    using powr_realpow [of 2 "Suc n"] by (simp add: add.commute)
  have "quantum x = 2 powr of_int (int n - 52)"
    using quantum_exp [of "int n" x] assms a b by simp
  also have "\<dots> = 2 powr of_int (int n) / 2 powr 52"
    by (simp add: powr_diff)
  also have "\<dots> = 2 ^ n / 2 ^ 52"
    using a powr_realpow [of 2 52] by simp
  finally show ?thesis .
qed

lemma quantum_le:
  assumes "\<bar>x\<bar> < 2 * 2 ^ n" and "x \<noteq> 0"
  shows "quantum x \<le> 2 ^ n / 2 ^ 52"
proof -
  have pos: "0 < \<bar>x\<bar>" using assms(2) by simp
  have "\<bar>x\<bar> < 2 powr of_int (int n + 1)"
    using assms(1) powr_realpow [of 2 "Suc n"] by (simp add: add.commute)
  then have "log 2 \<bar>x\<bar> < of_int (int n + 1)"
    using pos by (simp add: log_less_iff del: of_int_add)
  then have "\<lfloor>log 2 \<bar>x\<bar>\<rfloor> < int n + 1"
    using floor_less_iff [of "log 2 \<bar>x\<bar>" "int n + 1"] by blast
  then have "max \<lfloor>log 2 \<bar>x\<bar>\<rfloor> (- 1022) - 52 \<le> int n - 52"
    by simp
  then have "quantum x \<le> 2 powr of_int (int n - 52)"
    unfolding quantum_def by (intro powr_mono) simp_all
  also have "\<dots> = 2 powr of_int (int n) / 2 powr 52"
    by (simp add: powr_diff)
  also have "\<dots> = 2 ^ n / 2 ^ 52"
    using powr_realpow [of 2 n] powr_realpow [of 2 52] by simp
  finally show ?thesis .
qed

text \<open>Rounding moves a value by at most half the spacing.\<close>

lemma binary64_error_quantum: "\<bar>binary64 x - x\<bar> \<le> quantum x / 2"
proof (cases "x = 0")
  case True
  then show ?thesis using quantum_pos [of 0] by (simp add: binary64_def)
next
  case False
  define q where "q = quantum x"
  have q: "0 < q" by (simp add: q_def quantum_pos)
  define m where "m = roundTiesToEven (x / q)"
  have "binary64 x - x = (of_int m - x / q) * q"
    using False q by (simp add: binary64_def q_def [symmetric] m_def field_simps)
  then have "\<bar>binary64 x - x\<bar> = \<bar>of_int m - x / q\<bar> * q"
    using q by (simp add: abs_mult)
  also have "\<dots> \<le> (1 / 2) * q"
    using roundTiesToEven_error [of "x / q"] q unfolding m_def
    by (intro mult_right_mono) simp_all
  finally show ?thesis by (simp add: q_def)
qed

lemma binary64_error:
  assumes "\<bar>x\<bar> < 2 * 2 ^ n"
  shows "\<bar>binary64 x - x\<bar> \<le> 2 ^ n / 2 ^ 53"
proof (cases "x = 0")
  case True
  then show ?thesis by (simp add: binary64_def)
next
  case False
  have "\<bar>binary64 x - x\<bar> \<le> quantum x / 2" by (rule binary64_error_quantum)
  also have "\<dots> \<le> (2 ^ n / 2 ^ 52) / 2"
    using quantum_le [OF assms False] by simp
  finally show ?thesis by simp
qed

text \<open>Evaluating a rounding, and the values that rounding leaves alone: the
  whole multiples of the spacing, among them the whole numbers up to \<open>2\<^sup>5\<^sup>3\<close>.\<close>

lemma binary64_eval:
  assumes "x \<noteq> 0" and "quantum x = q" and "roundTiesToEven (x / q) = m"
  shows "binary64 x = of_int m * q"
  using assms by (simp add: binary64_def)

lemma binary64_exact:
  assumes "x / quantum x \<in> \<int>"
  shows "binary64 x = x"
proof (cases "x = 0")
  case True
  then show ?thesis by (simp add: binary64_def)
next
  case False
  from assms obtain m :: int where m: "x / quantum x = of_int m"
    by (auto elim: Ints_cases)
  have "x = of_int m * quantum x"
    using m quantum_pos [of x] by (simp add: field_simps)
  then show ?thesis
    using False m by (simp add: binary64_def roundTiesToEven_of_int)
qed

lemma binary64_Ints:
  assumes "x \<in> \<int>" and "\<bar>x\<bar> \<le> 2 ^ 53"
  shows "binary64 x = x"
proof (cases "x = 0")
  case True
  then show ?thesis by (simp add: binary64_def)
next
  case False
  from assms(1) obtain k :: int where k: "x = of_int k"
    by (auto elim: Ints_cases)
  have one: "1 \<le> \<bar>x\<bar>"
    using False k by (simp flip: of_int_abs)
  define e where "e = \<lfloor>log 2 \<bar>x\<bar>\<rfloor>"
  have e0: "0 \<le> e"
    using one by (simp add: e_def)
  define n where "n = nat e"
  have en: "e = int n" using e0 by (simp add: n_def)
  have "2 powr of_int e \<le> \<bar>x\<bar> \<and> \<bar>x\<bar> < 2 powr of_int (e + 1)"
    using floor_log_eq_powr_iff [of "\<bar>x\<bar>" 2 e] one by (simp add: e_def)
  then have lo: "2 ^ n \<le> \<bar>x\<bar>" and hi: "\<bar>x\<bar> < 2 * 2 ^ n"
    using powr_realpow [of 2 n] powr_realpow [of 2 "Suc n"]
    by (simp_all add: en add.commute)
  have q: "quantum x = 2 ^ n / 2 ^ 52"
    using quantum_pow [OF lo hi] .
  have n53: "n \<le> 53"
  proof (rule ccontr)
    assume "\<not> n \<le> 53"
    then have "54 \<le> n" by simp
    then have "(2::real) ^ 54 \<le> 2 ^ n"
      by (intro power_increasing) simp_all
    with lo assms(2) show False by simp
  qed
  have "x / quantum x \<in> \<int>"
  proof (cases "n \<le> 52")
    case True
    have "x / quantum x = x * (2 ^ 52 / 2 ^ n)"
      by (simp add: q)
    also have "(2::real) ^ 52 / 2 ^ n = 2 ^ (52 - n)"
      using True by (simp add: power_diff)
    finally show ?thesis by (simp add: k)
  next
    case False
    with n53 have n: "n = 53" by simp
    with lo assms(2) have "\<bar>x\<bar> = 2 ^ 53" by simp
    then have "x = 2 ^ 53 \<or> x = - (2 ^ 53)" by (simp add: abs_if split: if_splits)
    then show ?thesis by (auto simp: q n)
  qed
  then show ?thesis by (rule binary64_exact)
qed

text \<open>The roundings at the example inputs: in doubles \<open>12.3 - 0.3\<close> is \<open>12\<close>
  and \<open>0.3 + 9\<close> is \<open>9.3\<close>; \<open>2.1 - 0.1\<close> is \<open>2\<close> and \<open>0.1 + 1\<close> is \<open>1.1\<close>.\<close>

lemma rounded_12: "binary64 (double_12_3 - double_0_3) = 12"
proof -
  let ?x = "double_12_3 - double_0_3"
  have q: "quantum ?x = 2 ^ 3 / 2 ^ 52"
    by (rule quantum_pow) (simp_all add: double_12_3_def double_0_3_def)
  have r: "roundTiesToEven (?x / (2 ^ 3 / 2 ^ 52)) = 6755399441055744"
    by (simp add: roundTiesToEven_def Let_def double_12_3_def double_0_3_def)
  show ?thesis
    using binary64_eval [OF _ q r] by (simp add: double_12_3_def double_0_3_def)
qed

lemma rounded_9_3: "binary64 (double_0_3 + 9) = double_9_3"
proof -
  let ?x = "double_0_3 + 9"
  have q: "quantum ?x = 2 ^ 3 / 2 ^ 52"
    by (rule quantum_pow) (simp_all add: double_0_3_def)
  have r: "roundTiesToEven (?x / (2 ^ 3 / 2 ^ 52)) = 5235434566818202"
    by (simp add: roundTiesToEven_def Let_def double_0_3_def)
  show ?thesis
    using binary64_eval [OF _ q r] by (simp add: double_0_3_def double_9_3_def)
qed

lemma rounded_2: "binary64 (double_2_1 - double_0_1) = 2"
proof -
  let ?x = "double_2_1 - double_0_1"
  have q: "quantum ?x = 2 ^ 1 / 2 ^ 52"
    by (rule quantum_pow) (simp_all add: double_2_1_def double_0_1_def)
  have r: "roundTiesToEven (?x / (2 ^ 1 / 2 ^ 52)) = 4503599627370496"
    by (simp add: roundTiesToEven_def Let_def double_2_1_def double_0_1_def)
  show ?thesis
    using binary64_eval [OF _ q r] by (simp add: double_2_1_def double_0_1_def)
qed

lemma rounded_1_1: "binary64 (double_0_1 + 1) = double_1_1"
proof -
  let ?x = "double_0_1 + 1"
  have q: "quantum ?x = 2 ^ 0 / 2 ^ 52"
    by (rule quantum_pow) (simp_all add: double_0_1_def)
  have r: "roundTiesToEven (?x / (2 ^ 0 / 2 ^ 52)) = 4953959590107546"
    by (simp add: roundTiesToEven_def Let_def double_0_1_def)
  show ?thesis
    using binary64_eval [OF _ q r] by (simp add: double_0_1_def double_1_1_def)
qed

section \<open>Terrain height\<close>

lemma acceptTerrainSample_valid:
  assumes "terrainHeightValid s"
  shows "terrainHeightValid (acceptTerrainSample h s)"
    and "terrainHeightM (acceptTerrainSample h s) =
          (if \<bar>binary64 (h - terrainHeightM s)\<bar> > 12 then h
           else if \<bar>binary64 (h - terrainHeightM s)\<bar> > 2
           then binary64 (terrainHeightM s + binary64 (binary64 (h - terrainHeightM s) * (75 / 100)))
           else binary64 (terrainHeightM s + binary64 (binary64 (h - terrainHeightM s) * (5 / 10))))"
  using assms by (simp_all add: acceptTerrainSample_def Let_def)

lemma sampleTerrainHeight_accept:
  assumes "sceneRef s"
    and "\<not> (binary64 (now_terrain env - lastTerrainSampleMs s) < minTerrainSampleIntervalMs
            \<and> terrainHeightValid s)"
    and "sceneQuery env la lo = Probed g c"
    and "resolveSampledHeight g c = Finite h"
    and "\<bar>h\<bar> \<le> 3000"
  shows "sampleTerrainHeight env la lo s =
    (let s3 = acceptTerrainSample h
                (s\<lparr>lastTerrainSampleMs := now_terrain env,
                   perfTerrainQueries := perfTerrainQueries s + 2\<rparr>)
     in (terrainHeightM s3, s3))"
  using assms by (auto simp: sampleTerrainHeight_def Let_def)

text \<open>The two roundings of a blend step move its result by at most \<open>2\<^sup>-\<^sup>4\<^sup>0\<close>, and
  the rounding of the difference moves it by at most \<open>2\<^sup>-\<^sup>4\<^sup>1\<close>.\<close>

lemma blend_error:
  assumes "\<bar>cache\<bar> \<le> 3000" and "\<bar>d\<bar> \<le> 12" and "0 \<le> f" and "f \<le> 1"
  shows "\<bar>binary64 (cache + binary64 (d * f)) - (cache + f * d)\<bar> \<le> 1 / 2 ^ 40"
proof -
  have "\<bar>d * f\<bar> = \<bar>d\<bar> * f"
    using assms(3) by (simp add: abs_mult)
  also have "\<dots> \<le> 12 * 1"
    using assms(2,3,4) by (intro mult_mono) simp_all
  finally have df: "\<bar>d * f\<bar> \<le> 12" by simp
  then have "\<bar>d * f\<bar> < 2 * 2 ^ 3" by simp
  from binary64_error [OF this]
  have p: "\<bar>binary64 (d * f) - d * f\<bar> \<le> 1 / 2 ^ 50" by simp
  also have "\<dots> \<le> 1" by simp
  finally have "\<bar>binary64 (d * f)\<bar> \<le> 13"
    using df by linarith
  then have "\<bar>cache + binary64 (d * f)\<bar> < 2 * 2 ^ 12"
    using assms(1) by simp
  from binary64_error [OF this]
  have s: "\<bar>binary64 (cache + binary64 (d * f)) - (cache + binary64 (d * f))\<bar> \<le> 1 / 2 ^ 41"
    by simp
  have "\<bar>binary64 (cache + binary64 (d * f)) - (cache + d * f)\<bar>
      \<le> \<bar>binary64 (cache + binary64 (d * f)) - (cache + binary64 (d * f))\<bar>
        + \<bar>binary64 (d * f) - d * f\<bar>"
    by linarith
  also have "\<dots> \<le> 1 / 2 ^ 41 + 1 / 2 ^ 50"
    using p s by (rule add_mono [OF _ _, rotated])
  also have "\<dots> \<le> 1 / 2 ^ 40" by simp
  finally show ?thesis by (simp add: mult.commute)
qed

lemma delta_error:
  assumes "\<bar>cache\<bar> \<le> 3000" and "\<bar>h\<bar> \<le> 3000"
  shows "\<bar>binary64 (h - cache) - (h - cache)\<bar> \<le> 1 / 2 ^ 41"
proof -
  have "\<bar>h - cache\<bar> < 2 * 2 ^ 12"
    using assms by (simp add: abs_le_iff abs_less_iff)
  from binary64_error [OF this] show ?thesis by simp
qed

text \<open>
  The claim as stated fails where the rounding of the difference crosses a
  threshold. With the cache at the double 0.3 and an accepted sample of the
  double 12.3, the sample exceeds the cache by more than 12, and the cache is
  not set to the sample: the difference is rounded to 12, the fast blend
  applies, and the cache becomes the double 9.3. This is neither the cache plus
  0.75 times 12 nor the cache plus 0.75 times the exact difference, and it is
  further from the old cache than both. At the lower threshold, with the cache
  at 0.1 and a sample of 2.1, the sample exceeds the cache by more than 2, the
  difference is rounded to 2, and the slow blend gives 1.1.
\<close>

theorem C6_rounded_threshold_counterexample:
  "sceneRef (groundedRobot\<lparr>terrainHeightM := double_0_3\<rparr>)
   \<and> terrainHeightValid (groundedRobot\<lparr>terrainHeightM := double_0_3\<rparr>)
   \<and> 12 < double_12_3 - double_0_3
   \<and> terrainHeightM (snd (sampleTerrainHeight (exampleEnv 400 (Finite double_12_3)) 1 2
        (groundedRobot\<lparr>terrainHeightM := double_0_3\<rparr>))) = double_9_3
   \<and> double_9_3 \<noteq> double_12_3
   \<and> double_9_3 \<noteq> double_0_3 + (75 / 100) * 12
   \<and> double_9_3 \<noteq> double_0_3 + (75 / 100) * (double_12_3 - double_0_3)
   \<and> (75 / 100) * (double_12_3 - double_0_3) < double_9_3 - double_0_3
   \<and> 2 < double_2_1 - double_0_1
   \<and> terrainHeightM (snd (sampleTerrainHeight (exampleEnv 400 (Finite double_2_1)) 1 2
        (groundedRobot\<lparr>terrainHeightM := double_0_1\<rparr>))) = double_1_1
   \<and> double_1_1 \<noteq> double_0_1 + (75 / 100) * (double_2_1 - double_0_1)"
proof -
  have b400: "binary64 400 = 400" "binary64 9 = 9" "binary64 1 = 1"
    by (simp_all add: binary64_Ints)
  have bounds: "\<not> 3000 < \<bar>double_12_3\<bar>" "\<not> 3000 < \<bar>double_2_1\<bar>"
    by (simp_all add: double_12_3_def double_2_1_def)
  have a: "terrainHeightM (snd (sampleTerrainHeight (exampleEnv 400 (Finite double_12_3)) 1 2
        (groundedRobot\<lparr>terrainHeightM := double_0_3\<rparr>))) = double_9_3"
    by (simp add: sampleTerrainHeight_def groundedRobot_def G1Robot_new_def exampleEnv_def
          minTerrainSampleIntervalMs_def resolveSampledHeight_def acceptTerrainSample_def
          Let_def b400 bounds rounded_12 rounded_9_3)
  have b: "terrainHeightM (snd (sampleTerrainHeight (exampleEnv 400 (Finite double_2_1)) 1 2
        (groundedRobot\<lparr>terrainHeightM := double_0_1\<rparr>))) = double_1_1"
    by (simp add: sampleTerrainHeight_def groundedRobot_def G1Robot_new_def exampleEnv_def
          minTerrainSampleIntervalMs_def resolveSampledHeight_def acceptTerrainSample_def
          Let_def b400 bounds rounded_2 rounded_1_1)
  have c: "sceneRef (groundedRobot\<lparr>terrainHeightM := double_0_3\<rparr>)"
    "terrainHeightValid (groundedRobot\<lparr>terrainHeightM := double_0_3\<rparr>)"
    by (simp_all add: groundedRobot_def G1Robot_new_def)
  have d: "12 < double_12_3 - double_0_3" "double_9_3 \<noteq> double_12_3"
    "double_9_3 \<noteq> double_0_3 + (75 / 100) * 12"
    "double_9_3 \<noteq> double_0_3 + (75 / 100) * (double_12_3 - double_0_3)"
    "(75 / 100) * (double_12_3 - double_0_3) < double_9_3 - double_0_3"
    "2 < double_2_1 - double_0_1"
    "double_1_1 \<noteq> double_0_1 + (75 / 100) * (double_2_1 - double_0_1)"
    by (simp_all add: double_0_3_def double_12_3_def double_9_3_def double_0_1_def
          double_2_1_def double_1_1_def)
  show ?thesis
    using a b c d by simp
qed

text \<open>
  Claim C6, amended. For a terrain height update with a valid cached height (the
  scene is present, the sampling interval has elapsed, and the scene's sample
  is finite and within 3000 units), let \<open>delta\<close> be the double that the
  subtraction of the cache from the sample returns. When \<open>|delta|\<close> exceeds 12
  the cache becomes the sample. When \<open>|delta|\<close> is at most 12 the cache becomes
  the rounded sum of the cache and the rounded product of \<open>delta\<close> and the blend
  factor, 0.75 if \<open>|delta|\<close> exceeds 2 and 0.5 otherwise. The call returns the new
  cache. For a cache within 3000 units, \<open>delta\<close> is within \<open>2\<^sup>-\<^sup>4\<^sup>1\<close> of the exact
  difference, the new cache is within \<open>2\<^sup>-\<^sup>4\<^sup>0\<close> of the cache plus the blend factor
  times \<open>delta\<close>, and the cache moves by at most 0.75 times \<open>|delta|\<close> plus
  \<open>2\<^sup>-\<^sup>4\<^sup>0\<close>.
\<close>

theorem C6_terrain_smoothing:
  assumes "sceneRef s" and "terrainHeightValid s"
    and "\<not> binary64 (now_terrain env - lastTerrainSampleMs s) < minTerrainSampleIntervalMs"
    and "sceneQuery env la lo = Probed g c"
    and "resolveSampledHeight g c = Finite h"
    and "\<bar>h\<bar> \<le> 3000"
  shows "let s' = snd (sampleTerrainHeight env la lo s);
             cache = terrainHeightM s;
             delta = binary64 (h - cache)
         in fst (sampleTerrainHeight env la lo s) = terrainHeightM s'
            \<and> terrainHeightValid s'
            \<and> (\<bar>delta\<bar> > 12 \<longrightarrow> terrainHeightM s' = h)
            \<and> (\<bar>delta\<bar> \<le> 12 \<and> \<bar>delta\<bar> > 2 \<longrightarrow>
                 terrainHeightM s' = binary64 (cache + binary64 (delta * (75 / 100))))
            \<and> (\<bar>delta\<bar> \<le> 2 \<longrightarrow>
                 terrainHeightM s' = binary64 (cache + binary64 (delta * (5 / 10))))
            \<and> (\<bar>cache\<bar> \<le> 3000 \<longrightarrow>
                 \<bar>delta - (h - cache)\<bar> \<le> 1 / 2 ^ 41
                 \<and> (\<bar>delta\<bar> \<le> 12 \<and> \<bar>delta\<bar> > 2 \<longrightarrow>
                      \<bar>terrainHeightM s' - (cache + (75 / 100) * delta)\<bar> \<le> 1 / 2 ^ 40)
                 \<and> (\<bar>delta\<bar> \<le> 2 \<longrightarrow>
                      \<bar>terrainHeightM s' - (cache + (5 / 10) * delta)\<bar> \<le> 1 / 2 ^ 40)
                 \<and> (\<bar>delta\<bar> \<le> 12 \<longrightarrow>
                      \<bar>terrainHeightM s' - cache\<bar> \<le> (75 / 100) * \<bar>delta\<bar> + 1 / 2 ^ 40))"
proof -
  define s2 where "s2 = s\<lparr>lastTerrainSampleMs := now_terrain env,
                           perfTerrainQueries := perfTerrainQueries s + 2\<rparr>"
  have run: "sampleTerrainHeight env la lo s =
      (terrainHeightM (acceptTerrainSample h s2), acceptTerrainSample h s2)"
    using sampleTerrainHeight_accept [of s env la lo g c h] assms
    by (simp add: Let_def s2_def)
  have v2: "terrainHeightValid s2" and m2: "terrainHeightM s2 = terrainHeightM s"
    using assms(2) by (simp_all add: s2_def)
  define cache where "cache = terrainHeightM s"
  define d where "d = binary64 (h - cache)"
  define m' where "m' = terrainHeightM (acceptTerrainSample h s2)"
  have eq: "m' = (if \<bar>d\<bar> > 12 then h
                  else if \<bar>d\<bar> > 2 then binary64 (cache + binary64 (d * (75 / 100)))
                  else binary64 (cache + binary64 (d * (5 / 10))))"
    using acceptTerrainSample_valid(2) [OF v2, of h] by (simp add: m2 d_def m'_def cache_def)
  have parts: "\<bar>d\<bar> > 12 \<longrightarrow> m' = h"
    "\<bar>d\<bar> \<le> 12 \<and> \<bar>d\<bar> > 2 \<longrightarrow> m' = binary64 (cache + binary64 (d * (75 / 100)))"
    "\<bar>d\<bar> \<le> 2 \<longrightarrow> m' = binary64 (cache + binary64 (d * (5 / 10)))"
    unfolding eq by simp_all
  have fast: "\<bar>m' - (cache + (75 / 100) * d)\<bar> \<le> 1 / 2 ^ 40"
    if "\<bar>cache\<bar> \<le> 3000" "\<bar>d\<bar> \<le> 12" "\<bar>d\<bar> > 2"
    using blend_error [OF that(1,2), of "75 / 100"] that(2,3) unfolding eq by simp
  have slow: "\<bar>m' - (cache + (5 / 10) * d)\<bar> \<le> 1 / 2 ^ 40"
    if "\<bar>cache\<bar> \<le> 3000" "\<bar>d\<bar> \<le> 2"
  proof -
    from that(2) have "\<bar>d\<bar> \<le> 12" by simp
    from blend_error [OF that(1) this, of "5 / 10"] that(2) show ?thesis
      unfolding eq by simp
  qed
  have moved: "\<bar>m' - cache\<bar> \<le> (75 / 100) * \<bar>d\<bar> + 1 / 2 ^ 40"
    if c: "\<bar>cache\<bar> \<le> 3000" and le: "\<bar>d\<bar> \<le> 12"
  proof (cases "\<bar>d\<bar> > 2")
    case True
    have "\<bar>m' - cache\<bar> \<le> \<bar>m' - (cache + (75 / 100) * d)\<bar> + (75 / 100) * \<bar>d\<bar>"
      by linarith
    with fast [OF c le True] show ?thesis by linarith
  next
    case False
    then have le2: "\<bar>d\<bar> \<le> 2" by simp
    have "\<bar>m' - cache\<bar> \<le> \<bar>m' - (cache + (5 / 10) * d)\<bar> + (75 / 100) * \<bar>d\<bar>"
      by linarith
    with slow [OF c le2] show ?thesis by linarith
  qed
  have err: "\<bar>cache\<bar> \<le> 3000 \<Longrightarrow> \<bar>d - (h - cache)\<bar> \<le> 1 / 2 ^ 41"
    using delta_error [of cache h] assms(6) by (simp add: d_def)
  show ?thesis
    unfolding Let_def run fst_conv snd_conv
    using acceptTerrainSample_valid(1) [OF v2, of h] parts fast slow moved err
    unfolding d_def m'_def cache_def by blast
qed

theorem C6_terrain_smoothing_witness:
  "sceneRef groundedRobot \<and> terrainHeightValid groundedRobot
   \<and> \<not> binary64 (now_terrain (exampleEnv 400 (Finite 14)) - lastTerrainSampleMs groundedRobot)
         < minTerrainSampleIntervalMs
   \<and> sceneQuery (exampleEnv 400 (Finite 14)) 1 2 = Probed (Finite 14) None
   \<and> resolveSampledHeight (Finite 14) None = Finite 14
   \<and> terrainHeightM (snd (sampleTerrainHeight (exampleEnv 400 (Finite 14)) 1 2 groundedRobot)) = 13
   \<and> terrainHeightM (snd (sampleTerrainHeight (exampleEnv 400 (Finite 12)) 1 2 groundedRobot)) = 11
   \<and> terrainHeightM (snd (sampleTerrainHeight (exampleEnv 400 (Finite 30)) 1 2 groundedRobot)) = 30
   \<and> terrainHeightM (snd (sampleTerrainHeight (exampleEnv 400 (Finite double_12_3)) 1 2
        (groundedRobot\<lparr>terrainHeightM := double_0_3\<rparr>))) = double_9_3
   \<and> \<bar>double_0_3\<bar> \<le> 3000
   \<and> \<bar>double_9_3 - (double_0_3 + (75 / 100) * 12)\<bar> \<le> 1 / 2 ^ 40"
proof -
  have pre: "sceneRef groundedRobot" "terrainHeightValid groundedRobot"
    "terrainHeightM groundedRobot = 10"
    "\<not> binary64 (now_terrain (exampleEnv 400 g) - lastTerrainSampleMs groundedRobot)
         < minTerrainSampleIntervalMs"
    "sceneQuery (exampleEnv 400 g) 1 2 = Probed g None" for g
    by (simp_all add: groundedRobot_def G1Robot_new_def exampleEnv_def
          minTerrainSampleIntervalMs_def binary64_Ints)
  have pre': "sceneRef (groundedRobot\<lparr>terrainHeightM := double_0_3\<rparr>)"
    "terrainHeightValid (groundedRobot\<lparr>terrainHeightM := double_0_3\<rparr>)"
    "\<not> binary64 (now_terrain (exampleEnv 400 g)
           - lastTerrainSampleMs (groundedRobot\<lparr>terrainHeightM := double_0_3\<rparr>))
         < minTerrainSampleIntervalMs" for g
    by (simp_all add: groundedRobot_def G1Robot_new_def exampleEnv_def
          minTerrainSampleIntervalMs_def binary64_Ints)
  have res: "resolveSampledHeight (Finite x) None = Finite x" for x
    by (simp add: resolveSampledHeight_def)
  have small: "\<bar>double_12_3\<bar> \<le> 3000"
    by (simp add: double_12_3_def)
  note a = C6_terrain_smoothing [OF pre(1,2,4,5) res, of 14, simplified Let_def pre(3)]
  note b = C6_terrain_smoothing [OF pre(1,2,4,5) res, of 12, simplified Let_def pre(3)]
  note c = C6_terrain_smoothing [OF pre(1,2,4,5) res, of 30, simplified Let_def pre(3)]
  note d = C6_terrain_smoothing [OF pre'(1,2,3) pre(5) res small, simplified Let_def]
  have r1: "terrainHeightM (snd (sampleTerrainHeight (exampleEnv 400 (Finite 14)) 1 2 groundedRobot)) = 13"
    using a by (simp add: binary64_Ints)
  have r2: "terrainHeightM (snd (sampleTerrainHeight (exampleEnv 400 (Finite 12)) 1 2 groundedRobot)) = 11"
    using b by (simp add: binary64_Ints)
  have r3: "terrainHeightM (snd (sampleTerrainHeight (exampleEnv 400 (Finite 30)) 1 2 groundedRobot)) = 30"
    using c by (simp add: binary64_Ints)
  have r4: "terrainHeightM (snd (sampleTerrainHeight (exampleEnv 400 (Finite double_12_3)) 1 2
        (groundedRobot\<lparr>terrainHeightM := double_0_3\<rparr>))) = double_9_3"
    using d by (simp add: rounded_12 rounded_9_3 binary64_Ints)
  have r5: "\<bar>double_0_3\<bar> \<le> 3000"
    "\<bar>double_9_3 - (double_0_3 + (75 / 100) * 12)\<bar> \<le> 1 / 2 ^ 40"
    by (simp_all add: double_0_3_def double_9_3_def)
  show ?thesis
    using r1 r2 r3 r4 r5 by (simp add: pre res)
qed

section \<open>What the pose pipeline leaves alone\<close>

lemma poseFrame_updates [simp]:
  "poseFrame (s\<lparr>position := a\<rparr>) = poseFrame s"
  "poseFrame (s\<lparr>lastStaticPoseRefreshMs := b, currentLat := c, currentLon := d\<rparr>) = poseFrame s"
  by (simp_all add: poseFrame_def)

lemma calibrationView_updates [simp]:
  "calibrationView (s\<lparr>position := a\<rparr>) = calibrationView s"
  "calibrationView (s\<lparr>lastStaticPoseRefreshMs := b, currentLat := c, currentLon := d\<rparr>) = calibrationView s"
  "calibrationView (s\<lparr>lastProcessedT := e\<rparr>) = calibrationView s"
  "calibrationView (s\<lparr>lastPoseApplyMs := f, perfPoseApplied := g\<rparr>) = calibrationView s"
  by (simp_all add: calibrationView_def)

lemma emitNavigationContext_frame [simp]:
  "poseFrame (emitNavigationContext n s) = poseFrame s"
  "calibrationView (emitNavigationContext n s) = calibrationView s"
  by (simp_all add: emitNavigationContext_def poseFrame_def calibrationView_def split: option.splits)

lemma acceptTerrainSample_frame [simp]:
  "poseFrame (acceptTerrainSample h s) = poseFrame s"
  "calibrationView (acceptTerrainSample h s) = calibrationView s"
  by (simp_all add: acceptTerrainSample_def Let_def poseFrame_def calibrationView_def)

lemma sampleTerrainHeight_frame [simp]:
  "poseFrame (snd (sampleTerrainHeight env la lo s)) = poseFrame s"
  "calibrationView (snd (sampleTerrainHeight env la lo s)) = calibrationView s"
  by (simp_all add: sampleTerrainHeight_def terrainFallback_def Let_def
        split: scene_probe.splits jsnum.splits)
     (simp_all add: poseFrame_def calibrationView_def)

lemma estimateMotionHeading_frame [simp]:
  "poseFrame (snd (estimateMotionHeading la lo s)) = poseFrame s"
  "calibrationView (snd (estimateMotionHeading la lo s)) = calibrationView s"
  by (simp_all add: estimateMotionHeading_def Let_def poseFrame_def calibrationView_def
        split: option.splits)

lemma maybeAutoCalibrateHeading_frame [simp]:
  "poseFrame (maybeAutoCalibrateHeading m s) = poseFrame s"
  by (simp add: maybeAutoCalibrateHeading_def Let_def poseFrame_def persistHeadingOffset_def
        onStatus_def split: option.splits)


lemma applyRootTransform_shape:
  "\<exists>sm hp. applyRootTransform env q m s =
     updateModelMatrix (maybeAutoCalibrateHeading m (s\<lparr>smoothedHeadingRad := Finite sm, hpRoll := hp\<rparr>))"
  unfolding applyRootTransform_def updateModelMatrix_def Let_def split_beta
  by (intro exI) (rule refl)

lemma updateModelMatrix_frame [simp]:
  "poseFrame (updateModelMatrix s) = poseFrame s"
  "calibrationView (updateModelMatrix s) = calibrationView s"
  by (simp_all add: updateModelMatrix_def poseFrame_def calibrationView_def split: option.splits)

lemma applyRootTransform_frame [simp]:
  "poseFrame (applyRootTransform env q m s) = poseFrame s"
proof -
  obtain sm hp where "applyRootTransform env q m s =
     updateModelMatrix (maybeAutoCalibrateHeading m (s\<lparr>smoothedHeadingRad := Finite sm, hpRoll := hp\<rparr>))"
    using applyRootTransform_shape by blast
  then show ?thesis by (simp add: poseFrame_def [of "s\<lparr>smoothedHeadingRad := Finite sm, hpRoll := hp\<rparr>"] poseFrame_def [of s])
qed



lemma setNodeMatrix_frame [simp]:
  "poseFrame (setNodeMatrix n m s) = poseFrame s"
  "calibrationView (setNodeMatrix n m s) = calibrationView s"
  by (simp_all add: setNodeMatrix_def poseFrame_def calibrationView_def split: option.splits)

lemma getNode_frame [simp]:
  "poseFrame (snd (getNode n s)) = poseFrame s"
  "calibrationView (snd (getNode n s)) = calibrationView s"
  by (simp_all add: getNode_def poseFrame_def calibrationView_def split: option.splits)

lemma applyLink_shape:
  "applyLink entry s = s \<or> applyLink entry s = snd (getNode n s)
   \<or> (\<exists>node m. applyLink entry s = setNodeMatrix node m (snd (getNode n s)))"
  if "mapNodeName s (fst entry) = Some n"
  using that
  by (cases "getNode n s")
     (auto simp: applyLink_def split_beta split: option.splits list.splits jsnum.splits)


lemma applyLink_frame [simp]:
  "poseFrame (applyLink entry s) = poseFrame s"
  "calibrationView (applyLink entry s) = calibrationView s"
proof -
  show "poseFrame (applyLink entry s) = poseFrame s"
  proof (cases "mapNodeName s (fst entry)")
    case None
    then show ?thesis by (simp add: applyLink_def split_beta)
  next
    case (Some n)
    from applyLink_shape [OF this] show ?thesis by auto
  qed
  show "calibrationView (applyLink entry s) = calibrationView s"
  proof (cases "mapNodeName s (fst entry)")
    case None
    then show ?thesis by (simp add: applyLink_def split_beta)
  next
    case (Some n)
    from applyLink_shape [OF this] show ?thesis by auto
  qed
qed

lemma applyLinks_frame [simp]:
  "poseFrame (applyLinks entries s) = poseFrame s"
  "calibrationView (applyLinks entries s) = calibrationView s"
  by (induction entries arbitrary: s) simp_all

lemma applyLinkAnimation_frame [simp]:
  "poseFrame (applyLinkAnimation l s) = poseFrame s"
  "calibrationView (applyLinkAnimation l s) = calibrationView s"
  by (simp_all add: applyLinkAnimation_def split: option.splits)

lemma updateSpeedEstimate_frame [simp]:
  "poseFrame (updateSpeedEstimate env x s) = poseFrame s"
  "calibrationView (updateSpeedEstimate env x s) = calibrationView s"
  by (simp_all add: updateSpeedEstimate_def Let_def poseFrame_def calibrationView_def
        split: option.splits)

lemma maybeEmitPerfStatus_frame [simp]:
  "poseFrame (maybeEmitPerfStatus now s) = poseFrame s"
  "calibrationView (maybeEmitPerfStatus now s) = calibrationView s"
  by (simp_all add: maybeEmitPerfStatus_def Let_def onStatus_def poseFrame_def calibrationView_def)

lemma headingCalibrationSamples_view:
  "calibrationView s' = calibrationView s \<Longrightarrow> headingCalibrationSamples s' = headingCalibrationSamples s"
  by (simp add: calibrationView_def)

lemma applyPose_frame [simp]:
  "poseFrame (applyPose env p s) = poseFrame s"
  by (simp add: applyPose_def Let_def split_beta split: option.splits jsnum.splits)


section \<open>The per-tick update\<close>

lemma poseFrame_fields:
  assumes "poseFrame s' = poseFrame s"
  shows "latestPayload s' = latestPayload s" and "lastProcessedT s' = lastProcessedT s"
    and "lastPoseApplyMs s' = lastPoseApplyMs s"
  using assms by (simp_all add: poseFrame_def)

text \<open>The three ways a tick can go.\<close>

lemma update_skip:
  assumes "latestPayload s = Some p" and "root p \<noteq> None"
    and "Number_of (t p) = Finite ts" and "lastProcessedT s = Finite ts"
  shows "update env s = s"
  using assms by (simp add: update_def)

lemma update_throttled:
  assumes "latestPayload s = Some p" and "root p \<noteq> None"
    and "\<not> (isFinite (Number_of (t p)) \<and> Number_of (t p) = lastProcessedT s)"
    and "now_update env - lastPoseApplyMs s < minPoseApplyIntervalMs"
  shows "update env s =
           s\<lparr>lastProcessedT := (if isFinite (Number_of (t p)) then Number_of (t p)
                                 else Finite (date_update env))\<rparr>"
  using assms by (auto simp: update_def Let_def)

lemma update_applied:
  assumes "latestPayload s = Some p" and "root p \<noteq> None"
    and "\<not> (isFinite (Number_of (t p)) \<and> Number_of (t p) = lastProcessedT s)"
    and "\<not> now_update env - lastPoseApplyMs s < minPoseApplyIntervalMs"
  shows "update env s =
           maybeEmitPerfStatus (now_perf env)
             (applyPose env p
               (s\<lparr>lastProcessedT := (if isFinite (Number_of (t p)) then Number_of (t p)
                                      else Finite (date_update env)),
                  lastPoseApplyMs := now_update env,
                  perfPoseApplied := perfPoseApplied s + 1\<rparr>))"
  using assms by (auto simp: update_def Let_def)

lemma update_latestPayload [simp]: "latestPayload (update env s) = latestPayload s"
proof (cases "latestPayload s")
  case None
  then show ?thesis by (simp add: update_def)
next
  case (Some p)
  show ?thesis
  proof (cases "root p = None \<or> (isFinite (Number_of (t p)) \<and> Number_of (t p) = lastProcessedT s)")
    case True
    with Some show ?thesis by (auto simp: update_def Let_def)
  next
    case False
    then have r: "root p \<noteq> None"
      and d: "\<not> (isFinite (Number_of (t p)) \<and> Number_of (t p) = lastProcessedT s)" by auto
    show ?thesis
    proof (cases "now_update env - lastPoseApplyMs s < minPoseApplyIntervalMs")
      case True
      show ?thesis unfolding update_throttled [OF Some r d True] by simp
    next
      case False
      show ?thesis unfolding update_applied [OF Some r d False]
        by (simp add: poseFrame_fields(1) [where s' = "maybeEmitPerfStatus _ _"])
    qed
  qed
qed

lemma update_stamped:
  assumes "latestPayload s = Some p" and "root p \<noteq> None" and "Number_of (t p) = Finite ts"
  shows "lastProcessedT (update env s) = Finite ts"
proof (cases "lastProcessedT s = Finite ts")
  case True
  then show ?thesis using update_skip [OF assms True] by simp
next
  case False
  then have d: "\<not> (isFinite (Number_of (t p)) \<and> Number_of (t p) = lastProcessedT s)"
    using assms(3) by auto
  show ?thesis
  proof (cases "now_update env - lastPoseApplyMs s < minPoseApplyIntervalMs")
    case True
    show ?thesis unfolding update_throttled [OF assms(1,2) d True] by (simp add: assms(3))
  next
    case False
    show ?thesis unfolding update_applied [OF assms(1,2) d False]
      by (simp add: poseFrame_fields(2) [where s' = "maybeEmitPerfStatus _ _"] assms(3))
  qed
qed
lemma update_lastPoseApplyMs:
  assumes "latestPayload s = Some p" and "root p \<noteq> None"
    and "\<not> (isFinite (Number_of (t p)) \<and> Number_of (t p) = lastProcessedT s)"
    and "\<not> now_update env - lastPoseApplyMs s < minPoseApplyIntervalMs"
  shows "lastPoseApplyMs (update env s) = now_update env"
  unfolding update_applied [OF assms]
  by (simp add: poseFrame_fields(3) [where s' = "maybeEmitPerfStatus _ _"])

lemma update_unstamped:
  assumes "latestPayload s = Some p" and "root p \<noteq> None" and "\<not> isFinite (Number_of (t p))"
  shows "lastProcessedT (update env s) = Finite (date_update env)"
proof -
  have d: "\<not> (isFinite (Number_of (t p)) \<and> Number_of (t p) = lastProcessedT s)"
    using assms(3) by simp
  show ?thesis
  proof (cases "now_update env - lastPoseApplyMs s < minPoseApplyIntervalMs")
    case True
    show ?thesis unfolding update_throttled [OF assms(1,2) d True] by (simp add: assms(3))
  next
    case False
    show ?thesis unfolding update_applied [OF assms(1,2) d False]
      by (simp add: poseFrame_fields(2) [where s' = "maybeEmitPerfStatus _ _"] assms(3))
  qed
qed

lemma waitingRobot_fields:
  "latestPayload (waitingRobot st) = Some (examplePayload st (Some (Finite 1)) (Some identityQuat))"
  "lastPoseApplyMs (waitingRobot st) = 0"
  "lastProcessedT (waitingRobot st) = NaN"
  by (simp_all add: waitingRobot_def readyRobot_def G1Robot_new_def)

lemma examplePayload_fields:
  "root (examplePayload st la q) \<noteq> None"
  "t (examplePayload st la q) = st"
  by (simp_all add: examplePayload_def)

lemma exampleEnv_fields:
  "now_update (exampleEnv n g) = n" "date_update (exampleEnv n g) = n"
  by (simp_all add: exampleEnv_def)

text \<open>
  Claim C2. With a stored payload that carries a finite timestamp, running the
  per-tick update a second time changes nothing: the object after two runs is
  the object after the first run, whatever the clocks and the scene say at the
  second run.
\<close>

theorem C2_update_idempotent:
  assumes "latestPayload s = Some p" and "Number_of (t p) = Finite ts"
  shows "update env2 (update env1 s) = update env1 s"
proof (cases "root p = None")
  case True
  with assms show ?thesis by (simp add: update_def)
next
  case False
  have lp: "latestPayload (update env1 s) = Some p"
    using assms(1) by simp
  show ?thesis
    using update_skip [OF lp False assms(2) update_stamped [OF assms(1) False assms(2)]] .
qed

theorem C2_update_idempotent_witness:
  "latestPayload (waitingRobot (Some (Finite 7))) =
     Some (examplePayload (Some (Finite 7)) (Some (Finite 1)) (Some identityQuat))
   \<and> Number_of (t (examplePayload (Some (Finite 7)) (Some (Finite 1)) (Some identityQuat))) = Finite 7
   \<and> lastPoseApplyMs (update (exampleEnv 100 (Finite 5)) (waitingRobot (Some (Finite 7)))) = 100
   \<and> update (exampleEnv 200 (Finite 5))
        (update (exampleEnv 100 (Finite 5)) (waitingRobot (Some (Finite 7))))
      = update (exampleEnv 100 (Finite 5)) (waitingRobot (Some (Finite 7)))"
proof -
  have st: "Number_of (t (examplePayload (Some (Finite 7)) (Some (Finite 1)) (Some identityQuat))) = Finite 7"
    by (simp add: examplePayload_fields)
  have applied: "lastPoseApplyMs (update (exampleEnv 100 (Finite 5)) (waitingRobot (Some (Finite 7)))) = 100"
    using update_lastPoseApplyMs [OF waitingRobot_fields(1) examplePayload_fields(1),
        of "Some (Finite 7)" "exampleEnv 100 (Finite 5)"]
    by (simp add: waitingRobot_fields examplePayload_fields exampleEnv_fields
          minPoseApplyIntervalMs_def)
  show ?thesis
    using C2_update_idempotent [OF waitingRobot_fields(1) st,
        of "exampleEnv 200 (Finite 5)" "exampleEnv 100 (Finite 5)"] applied
    by (simp add: waitingRobot_fields st)
qed

text \<open>
  Claim C10. A stored payload whose timestamp is not a finite number is never
  treated as a duplicate: the update records the wall-clock time as the
  last-processed timestamp, and at a later tick (the apply interval having
  elapsed at both) the same payload is applied again.
\<close>

theorem C10_unstamped_payload_reapplied:
  assumes "latestPayload s = Some p" and "root p \<noteq> None"
    and "\<not> isFinite (Number_of (t p))"
    and "\<not> now_update env1 - lastPoseApplyMs s < minPoseApplyIntervalMs"
    and "\<not> now_update env2 - now_update env1 < minPoseApplyIntervalMs"
  shows "lastProcessedT (update env1 s) = Finite (date_update env1)
         \<and> lastPoseApplyMs (update env1 s) = now_update env1
         \<and> update env2 (update env1 s) =
             maybeEmitPerfStatus (now_perf env2)
               (applyPose env2 p
                 ((update env1 s)
                    \<lparr>lastProcessedT := Finite (date_update env2),
                     lastPoseApplyMs := now_update env2,
                     perfPoseApplied := perfPoseApplied (update env1 s) + 1\<rparr>))
         \<and> lastProcessedT (update env2 (update env1 s)) = Finite (date_update env2)
         \<and> lastPoseApplyMs (update env2 (update env1 s)) = now_update env2"
proof -
  have d: "\<not> (isFinite (Number_of (t p)) \<and> Number_of (t p) = lastProcessedT s')" for s'
    using assms(3) by simp
  have lp: "latestPayload (update env1 s) = Some p"
    using assms(1) by simp
  have a1: "lastPoseApplyMs (update env1 s) = now_update env1"
    using update_lastPoseApplyMs [OF assms(1,2) d assms(4)] .
  have th2: "\<not> now_update env2 - lastPoseApplyMs (update env1 s) < minPoseApplyIntervalMs"
    using assms(5) by (simp add: a1)
  have c3: "update env2 (update env1 s) =
             maybeEmitPerfStatus (now_perf env2)
               (applyPose env2 p
                 ((update env1 s)
                    \<lparr>lastProcessedT := Finite (date_update env2),
                     lastPoseApplyMs := now_update env2,
                     perfPoseApplied := perfPoseApplied (update env1 s) + 1\<rparr>))"
    using update_applied [OF lp assms(2) d th2] by (simp add: assms(3))
  show ?thesis
    by (intro conjI)
       (rule update_unstamped [OF assms(1,2,3)], rule a1, rule c3,
        rule update_unstamped [OF lp assms(2,3)],
        rule update_lastPoseApplyMs [OF lp assms(2) d th2])
qed

theorem C10_unstamped_payload_reapplied_witness:
  "latestPayload (waitingRobot None) =
     Some (examplePayload None (Some (Finite 1)) (Some identityQuat))
   \<and> \<not> isFinite (Number_of (t (examplePayload None (Some (Finite 1)) (Some identityQuat))))
   \<and> lastPoseApplyMs (update (exampleEnv 100 (Finite 5)) (waitingRobot None)) = 100
   \<and> lastProcessedT (update (exampleEnv 100 (Finite 5)) (waitingRobot None)) = Finite 100
   \<and> lastPoseApplyMs (update (exampleEnv 200 (Finite 5))
        (update (exampleEnv 100 (Finite 5)) (waitingRobot None))) = 200
   \<and> lastProcessedT (update (exampleEnv 200 (Finite 5))
        (update (exampleEnv 100 (Finite 5)) (waitingRobot None))) = Finite 200"
proof -
  have st: "\<not> isFinite (Number_of (t (examplePayload None (Some (Finite 1)) (Some identityQuat))))"
    by (simp add: examplePayload_fields)
  have t1: "\<not> now_update (exampleEnv 100 (Finite 5)) - lastPoseApplyMs (waitingRobot None)
              < minPoseApplyIntervalMs"
    by (simp add: waitingRobot_fields exampleEnv_fields minPoseApplyIntervalMs_def)
  have t2: "\<not> now_update (exampleEnv 200 (Finite 5)) - now_update (exampleEnv 100 (Finite 5))
              < minPoseApplyIntervalMs"
    by (simp add: exampleEnv_fields minPoseApplyIntervalMs_def)
  note w = C10_unstamped_payload_reapplied
    [OF waitingRobot_fields(1) examplePayload_fields(1) st t1 t2]
  note w1 = w [THEN conjunct1, unfolded exampleEnv_fields]
  note w2 = w [THEN conjunct2, THEN conjunct1, unfolded exampleEnv_fields]
  note w4 = w [THEN conjunct2, THEN conjunct2, THEN conjunct2, THEN conjunct1,
    unfolded exampleEnv_fields]
  note w5 = w [THEN conjunct2, THEN conjunct2, THEN conjunct2, THEN conjunct2,
    unfolded exampleEnv_fields]
  show ?thesis
    by (intro conjI) (rule waitingRobot_fields(1), rule st, rule w2, rule w1, rule w5, rule w4)
qed

text \<open>A payload throttled at one tick is never applied at a later one.\<close>

lemma throttled_payload_dropped:
  assumes "latestPayload s = Some p" and "root p \<noteq> None"
    and "Number_of (t p) = Finite ts" and "lastProcessedT s \<noteq> Finite ts"
    and "now_update env - lastPoseApplyMs s < minPoseApplyIntervalMs"
  shows "update env s = s\<lparr>lastProcessedT := Finite ts\<rparr>"
    and "update env' (update env s) = update env s"
proof -
  have d: "\<not> (isFinite (Number_of (t p)) \<and> Number_of (t p) = lastProcessedT s)"
    using assms(3,4) by auto
  show a: "update env s = s\<lparr>lastProcessedT := Finite ts\<rparr>"
    using update_throttled [OF assms(1,2) d assms(5)] by (simp add: assms(3))
  show "update env' (update env s) = update env s"
    unfolding a using assms(1,2,3) by (simp add: update_def)
qed

lemma busyRobot_fields:
  "latestPayload busyRobot = Some (examplePayload (Some (Finite 7)) (Some (Finite 1)) (Some identityQuat))"
  "lastPoseApplyMs busyRobot = 100"
  "lastProcessedT busyRobot = Finite 6"
  "position busyRobot = FromDegrees 0 0 0"
  by (simp_all add: busyRobot_def readyRobot_def G1Robot_new_def)

text \<open>
  Claim C1 says that a payload with a new finite timestamp that arrives before
  the apply interval has elapsed is held and applied at a later tick. In the
  code the timestamp is recorded as processed before the interval is checked,
  so the held payload counts as a duplicate from the next tick on. Here the
  robot applied message 6 at 100 ms and holds message 7: the tick at 110 ms
  only records timestamp 7, and every later tick leaves the object as it is;
  the pose of message 7 is never applied.
\<close>

theorem C1_throttled_payload_dropped:
  "t (examplePayload (Some (Finite 7)) (Some (Finite 1)) (Some identityQuat)) = Some (Finite 7)
   \<and> latestPayload busyRobot =
       Some (examplePayload (Some (Finite 7)) (Some (Finite 1)) (Some identityQuat))
   \<and> lastProcessedT busyRobot = Finite 6
   \<and> lastPoseApplyMs busyRobot = 100
   \<and> update (exampleEnv 110 (Finite 5)) busyRobot = busyRobot\<lparr>lastProcessedT := Finite 7\<rparr>
   \<and> (\<forall>env. update env (update (exampleEnv 110 (Finite 5)) busyRobot)
              = busyRobot\<lparr>lastProcessedT := Finite 7\<rparr>)
   \<and> lastPoseApplyMs (update (exampleEnv 150 (Finite 5))
        (update (exampleEnv 110 (Finite 5)) busyRobot)) = 100
   \<and> position (update (exampleEnv 150 (Finite 5))
        (update (exampleEnv 110 (Finite 5)) busyRobot)) = FromDegrees 0 0 0"
proof -
  have st: "Number_of (t (examplePayload (Some (Finite 7)) (Some (Finite 1)) (Some identityQuat))) = Finite 7"
    by (simp add: examplePayload_fields)
  have ne: "lastProcessedT busyRobot \<noteq> Finite 7"
    by (simp add: busyRobot_fields)
  have th: "now_update (exampleEnv 110 (Finite 5)) - lastPoseApplyMs busyRobot < minPoseApplyIntervalMs"
    by (simp add: busyRobot_fields exampleEnv_fields minPoseApplyIntervalMs_def)
  note d = throttled_payload_dropped [OF busyRobot_fields(1) examplePayload_fields(1) st ne th]
  have later: "update env (update (exampleEnv 110 (Finite 5)) busyRobot)
                 = busyRobot\<lparr>lastProcessedT := Finite 7\<rparr>" for env
    using d(2) [of env] d(1) by simp
  show ?thesis
    using d(1) later by (simp add: busyRobot_fields examplePayload_fields)
qed

section \<open>Invalid root poses\<close>

lemma sanitizeQuat_invalid: "invalidQuat raw \<Longrightarrow> sanitizeQuat raw = (1, 0, 0, 0)"
  by (auto simp: invalidQuat_def sanitizeQuat_def split: option.splits)

lemma sanitizeQuat_identity: "sanitizeQuat (Some identityQuat) = (1, 0, 0, 0)"
  by (simp add: sanitizeQuat_def identityQuat_def)

lemma applyPose_no_fix:
  assumes "root p = Some r"
    and "\<not> isFinite (Number_of (lat r)) \<or> \<not> isFinite (Number_of (lon r))"
  shows "applyPose env p s = emitNavigationContext (nav p) s"
  using assms
  by (cases "Number_of (lat r)"; cases "Number_of (lon r)")
     (simp_all add: applyPose_def Let_def)

lemma emitNavigationContext_render:
  "emitNavigationContext n s = s\<lparr>navLog := navLog (emitNavigationContext n s)\<rparr>"
  by (simp add: emitNavigationContext_def split: option.splits)

text \<open>
  Claim C3, amended. When the latitude or the longitude of the root pose is
  missing or not finite, the frame is skipped: apart from the navigation
  context handed to the callback the object is unchanged, so position, heading,
  pitch, roll and model matrix are retained. A missing or non-finite
  orientation quaternion does not skip the frame: it is replaced by the
  identity quaternion and the frame is applied as if the message had carried
  the identity.
\<close>

theorem C3_invalid_root_pose:
  assumes "root p = Some r"
  shows "(\<not> isFinite (Number_of (lat r)) \<or> \<not> isFinite (Number_of (lon r)) \<longrightarrow>
            applyPose env p s = s\<lparr>navLog := navLog (applyPose env p s)\<rparr>
            \<and> position (applyPose env p s) = position s
            \<and> hpRoll (applyPose env p s) = hpRoll s
            \<and> primitive (applyPose env p s) = primitive s)
         \<and> (invalidQuat (quat r) \<longrightarrow>
              sanitizeQuat (quat r) = (1, 0, 0, 0)
              \<and> applyPose env p s =
                  applyPose env (p\<lparr>root := Some (r\<lparr>quat := Some identityQuat\<rparr>)\<rparr>) s)"
proof -
  have a: "applyPose env p s = s\<lparr>navLog := navLog (applyPose env p s)\<rparr>"
    if "\<not> isFinite (Number_of (lat r)) \<or> \<not> isFinite (Number_of (lon r))"
    using applyPose_no_fix [OF assms that, of env s] emitNavigationContext_render [of "nav p" s]
    by simp
  have a': "position (applyPose env p s) = position s \<and> hpRoll (applyPose env p s) = hpRoll s
            \<and> primitive (applyPose env p s) = primitive s"
    if "\<not> isFinite (Number_of (lat r)) \<or> \<not> isFinite (Number_of (lon r))"
    using applyPose_no_fix [OF assms that, of env s]
    by (simp add: emitNavigationContext_def split: option.splits)
  have b: "applyPose env p s = applyPose env (p\<lparr>root := Some (r\<lparr>quat := Some identityQuat\<rparr>)\<rparr>) s"
    if "invalidQuat (quat r)"
    using assms sanitizeQuat_invalid [OF that]
    by (simp add: applyPose_def sanitizeQuat_identity
          cong: jsnum.case_cong option.case_cong prod.case_cong if_cong)
  show ?thesis
    using a a' b sanitizeQuat_invalid by blast
qed

lemma ex_apply:
  "position (applyPose (exampleEnv 100 (Finite 5))
       (examplePayload (Some (Finite 7)) (Some (Finite 1)) (Some identityQuat)) readyRobot)
     = FromDegrees 2 1 (586 / 100)"
  "primitive (applyPose (exampleEnv 100 (Finite 5))
       (examplePayload (Some (Finite 7)) (Some (Finite 1)) (Some identityQuat)) readyRobot)
     = Some \<lparr>modelMatrix = HprFrame (FromDegrees 2 1 (586 / 100)) 0 (Finite 0) (Finite 0),
               nodes = Map.empty\<rparr>"
  by (simp_all add: applyPose_def examplePayload_def readyRobot_def G1Robot_new_def exampleEnv_def
        emitNavigationContext_def sampleTerrainHeight_def minTerrainSampleIntervalMs_def
        resolveSampledHeight_def acceptTerrainSample_def pelvisToGroundOffsetM_def
        estimateMotionHeading_def sanitizeQuat_identity applyRootTransform_def zeroToTwoPi_def
        TWO_PI_def maybeAutoCalibrateHeading_def applyLinkAnimation_def updateSpeedEstimate_def
        Let_def)

lemma ex_root:
  "root (examplePayload st la q) =
     Some \<lparr>lat = la, lon = Some (Finite 2), height = Some (Finite 0), quat = q\<rparr>"
  by (simp add: examplePayload_def)

lemma ex_reroot:
  "(examplePayload st la q)
     \<lparr>root := Some \<lparr>lat = la, lon = Some (Finite 2), height = Some (Finite 0),
                     quat = Some identityQuat\<rparr>\<rparr>
   = examplePayload st la (Some identityQuat)"
  by (simp add: examplePayload_def)

text \<open>The claim as stated fails for a message without a quaternion: the robot
  moves to the reported position and its model matrix changes.\<close>

theorem C3_missing_quat_counterexample:
  "invalidQuat (quat \<lparr>lat = Some (Finite 1), lon = Some (Finite 2), height = Some (Finite 0),
                       quat = None\<rparr>)
   \<and> root (examplePayload (Some (Finite 7)) (Some (Finite 1)) None) =
       Some \<lparr>lat = Some (Finite 1), lon = Some (Finite 2), height = Some (Finite 0), quat = None\<rparr>
   \<and> position readyRobot = FromDegrees 0 0 0
   \<and> position (applyPose (exampleEnv 100 (Finite 5))
        (examplePayload (Some (Finite 7)) (Some (Finite 1)) None) readyRobot)
      = FromDegrees 2 1 (586 / 100)
   \<and> primitive (applyPose (exampleEnv 100 (Finite 5))
        (examplePayload (Some (Finite 7)) (Some (Finite 1)) None) readyRobot)
      \<noteq> primitive readyRobot"
proof -
  have inv: "invalidQuat (quat \<lparr>lat = Some (Finite 1), lon = Some (Finite 2),
      height = Some (Finite 0), quat = None\<rparr>)"
    by (simp add: invalidQuat_def)
  have eq: "applyPose (exampleEnv 100 (Finite 5))
        (examplePayload (Some (Finite 7)) (Some (Finite 1)) None) readyRobot
      = applyPose (exampleEnv 100 (Finite 5))
        (examplePayload (Some (Finite 7)) (Some (Finite 1)) (Some identityQuat)) readyRobot"
    using inv by (simp add: applyPose_def ex_root sanitizeQuat_invalid sanitizeQuat_identity
        examplePayload_def cong: jsnum.case_cong option.case_cong prod.case_cong if_cong)
  have p0: "position readyRobot = FromDegrees 0 0 0"
    "primitive readyRobot =
       Some \<lparr>modelMatrix = HprFrame (FromDegrees 0 0 0) 0 (Finite 0) (Finite 0), nodes = Map.empty\<rparr>"
    by (simp_all add: readyRobot_def G1Robot_new_def)
  show ?thesis
    unfolding eq ex_apply p0 using inv by (simp add: ex_root)
qed

theorem C3_invalid_root_pose_witness:
  "root (examplePayload (Some (Finite 7)) None (Some identityQuat)) =
     Some \<lparr>lat = None, lon = Some (Finite 2), height = Some (Finite 0), quat = Some identityQuat\<rparr>
   \<and> position (applyPose (exampleEnv 100 (Finite 5))
        (examplePayload (Some (Finite 7)) None (Some identityQuat)) readyRobot) = FromDegrees 0 0 0
   \<and> applyPose (exampleEnv 100 (Finite 5))
        (examplePayload (Some (Finite 7)) (Some (Finite 1)) None) readyRobot
      = applyPose (exampleEnv 100 (Finite 5))
        (examplePayload (Some (Finite 7)) (Some (Finite 1)) (Some identityQuat)) readyRobot"
proof -
  have p0: "position readyRobot = FromDegrees 0 0 0"
    by (simp add: readyRobot_def G1Robot_new_def)
  have inv: "invalidQuat None"
    by (simp add: invalidQuat_def)
  note a = C3_invalid_root_pose [OF ex_root [of "Some (Finite 7)" None "Some identityQuat"],
      of "exampleEnv 100 (Finite 5)" readyRobot]
  note b = C3_invalid_root_pose [OF ex_root [of "Some (Finite 7)" "Some (Finite 1)" None],
      of "exampleEnv 100 (Finite 5)" readyRobot]
  have a1: "position (applyPose (exampleEnv 100 (Finite 5))
        (examplePayload (Some (Finite 7)) None (Some identityQuat)) readyRobot) = FromDegrees 0 0 0"
    using a by (simp add: p0)
  have b1: "applyPose (exampleEnv 100 (Finite 5))
        (examplePayload (Some (Finite 7)) (Some (Finite 1)) None) readyRobot
      = applyPose (exampleEnv 100 (Finite 5))
        (examplePayload (Some (Finite 7)) (Some (Finite 1)) (Some identityQuat)) readyRobot"
    using b inv by (simp add: ex_reroot)
  show ?thesis
    using a1 b1 by (simp add: ex_root)
qed

section \<open>Stream connection\<close>

lemma timersInv_iff:
  "timersInv s \<longleftrightarrow>
     (\<forall>i tm. (i, tm) \<in> set (activeTimers s) \<longrightarrow> timerField tm s = Some i)"
  by (auto simp: timersInv_def list_all_iff)

lemma cancelPendingVisionCapture_fields [simp]:
  "activeTimers (cancelPendingVisionCapture s) = activeTimers s"
  "reconnectTimer (cancelPendingVisionCapture s) = reconnectTimer s"
  "frameCaptureTimer (cancelPendingVisionCapture s) = frameCaptureTimer s"
  "terrainProbeTimer (cancelPendingVisionCapture s) = terrainProbeTimer s"
  "destroyed (cancelPendingVisionCapture s) = destroyed s"
  "ws (cancelPendingVisionCapture s) = ws s"
  "sockets (cancelPendingVisionCapture s) = sockets s"
  "streamStates (cancelPendingVisionCapture s) = streamStates s"
  "nextTimerId (cancelPendingVisionCapture s) = nextTimerId s"
  by (simp_all add: cancelPendingVisionCapture_def Let_def)

lemma stopPerceptionStreaming_fields [simp]:
  "reconnectTimer (stopPerceptionStreaming s) = reconnectTimer s"
  "frameCaptureTimer (stopPerceptionStreaming s) = None"
  "terrainProbeTimer (stopPerceptionStreaming s) = None"
  "destroyed (stopPerceptionStreaming s) = destroyed s"
  "ws (stopPerceptionStreaming s) = ws s"
  "sockets (stopPerceptionStreaming s) = sockets s"
  "streamStates (stopPerceptionStreaming s) = streamStates s"
  "nextTimerId (stopPerceptionStreaming s) = nextTimerId s"
  by (simp_all add: stopPerceptionStreaming_def Let_def clearTimer_def split: option.splits)

lemma stopPerceptionStreaming_timers:
  "set (activeTimers (stopPerceptionStreaming s)) \<subseteq> set (activeTimers s)"
  "\<And>i. frameCaptureTimer s = Some i \<Longrightarrow> i \<notin> fst ` set (activeTimers (stopPerceptionStreaming s))"
  "\<And>i. terrainProbeTimer s = Some i \<Longrightarrow> i \<notin> fst ` set (activeTimers (stopPerceptionStreaming s))"
  by (auto simp: stopPerceptionStreaming_def Let_def clearTimer_def split: option.splits)

lemma stopPerceptionStreaming_only_reconnects:
  assumes "timersInv s" and "e \<in> set (activeTimers (stopPerceptionStreaming s))"
  shows "isReconnectTimeout (snd e) \<and> reconnectTimer s = Some (fst e)"
proof -
  obtain i tm where e: "e = (i, tm)" by (cases e)
  have old: "(i, tm) \<in> set (activeTimers s)"
    using assms(2) stopPerceptionStreaming_timers(1) e by blast
  have here: "i \<in> fst ` set (activeTimers (stopPerceptionStreaming s))"
    using assms(2) e by force
  have tf: "timerField tm s = Some i"
    using assms(1) old unfolding timersInv_iff by blast
  show ?thesis
  proof (cases tm)
    case (ReconnectTimeout d)
    with tf e show ?thesis by simp
  next
    case (FrameCaptureInterval d)
    with tf have "frameCaptureTimer s = Some i" by simp
    with stopPerceptionStreaming_timers(2) here show ?thesis by blast
  next
    case (TerrainProbeInterval d)
    with tf have "terrainProbeTimer s = Some i" by simp
    with stopPerceptionStreaming_timers(3) here show ?thesis by blast
  qed
qed

lemma stopPerceptionStreaming_inv:
  assumes "timersInv s"
  shows "timersInv (stopPerceptionStreaming s)"
  unfolding timersInv_iff [of "stopPerceptionStreaming s"]
proof (intro allI impI)
  fix i tm
  assume "(i, tm) \<in> set (activeTimers (stopPerceptionStreaming s))"
  from stopPerceptionStreaming_only_reconnects [OF assms this]
  have "isReconnectTimeout tm" and "reconnectTimer s = Some i" by auto
  then show "timerField tm (stopPerceptionStreaming s) = Some i"
    by (cases tm) simp_all
qed

lemma cleared_after_stop:
  assumes "timersInv s"
  shows "(case reconnectTimer s of
            None \<Rightarrow> activeTimers (stopPerceptionStreaming s)
          | Some i \<Rightarrow> activeTimers (clearTimer i (stopPerceptionStreaming s))) = []"
proof (cases "reconnectTimer s")
  case None
  with stopPerceptionStreaming_only_reconnects [OF assms]
  have "\<forall>e \<in> set (activeTimers (stopPerceptionStreaming s)). False" by auto
  then have "activeTimers (stopPerceptionStreaming s) = []"
    by (cases "activeTimers (stopPerceptionStreaming s)") auto
  with None show ?thesis by simp
next
  case (Some r)
  with stopPerceptionStreaming_only_reconnects [OF assms]
  have "\<forall>e \<in> set (activeTimers (stopPerceptionStreaming s)). fst e = r" by auto
  then have "filter (\<lambda>entry. fst entry \<noteq> r) (activeTimers (stopPerceptionStreaming s)) = []"
    by (simp add: filter_empty_conv)
  with Some show ?thesis by (simp add: clearTimer_def)
qed

lemma emitStreamState_fields [simp]:
  "activeTimers (emitStreamState x s) = activeTimers s"
  "reconnectTimer (emitStreamState x s) = reconnectTimer s"
  "frameCaptureTimer (emitStreamState x s) = frameCaptureTimer s"
  "terrainProbeTimer (emitStreamState x s) = terrainProbeTimer s"
  "destroyed (emitStreamState x s) = destroyed s"
  "ws (emitStreamState x s) = ws s"
  "sockets (emitStreamState x s) = sockets s"
  "streamStates (emitStreamState x s) = streamStates s @ [x]"
  "nextTimerId (emitStreamState x s) = nextTimerId s"
  by (simp_all add: emitStreamState_def)

lemma timerField_emitStreamState [simp]:
  "timerField tm (emitStreamState x s) = timerField tm s"
  by (cases tm) simp_all

lemma timersInv_emitStreamState [simp]: "timersInv (emitStreamState x s) = timersInv s"
  by (simp add: timersInv_def)

lemma onclose_live:
  assumes "timersInv s" and "\<not> destroyed s"
  shows "streamStates (onclose s) = streamStates s @ [offline]"
    and "frameCaptureTimer (onclose s) = None"
    and "terrainProbeTimer (onclose s) = None"
    and "activeTimers (onclose s) = [(nextTimerId s, ReconnectTimeout 1500)]"
    and "reconnectTimer (onclose s) = Some (nextTimerId s)"
    and "nextTimerId (onclose s) = nextTimerId s + 1"
    and "\<not> destroyed (onclose s)"
    and "sockets (onclose s) = sockets s"
    and "ws (onclose s) = ws s"
proof -
  let ?s2 = "stopPerceptionStreaming (emitStreamState offline s)"
  have inv1: "timersInv (emitStreamState offline s)" using assms(1) by simp
  have empty: "(case reconnectTimer ?s2 of None \<Rightarrow> activeTimers ?s2
               | Some i \<Rightarrow> activeTimers (clearTimer i ?s2)) = []"
    using cleared_after_stop [OF inv1] by simp
  have nd: "\<not> destroyed ?s2" using assms(2) by simp
  have oc: "onclose s =
      (let s3 = (case reconnectTimer ?s2 of None \<Rightarrow> ?s2 | Some i \<Rightarrow> clearTimer i ?s2)
       in (snd (setReconnectTimeout 1500 s3))\<lparr>reconnectTimer := Some (fst (setReconnectTimeout 1500 s3))\<rparr>)"
    using nd by (simp add: onclose_def Let_def split_beta)
  have f2: "streamStates ?s2 = streamStates s @ [offline]" "frameCaptureTimer ?s2 = None"
    "terrainProbeTimer ?s2 = None" "nextTimerId ?s2 = nextTimerId s" "sockets ?s2 = sockets s"
    "ws ?s2 = ws s" "destroyed ?s2 = destroyed s"
    by simp_all
  show "streamStates (onclose s) = streamStates s @ [offline]"
    and "frameCaptureTimer (onclose s) = None"
    and "terrainProbeTimer (onclose s) = None"
    and "activeTimers (onclose s) = [(nextTimerId s, ReconnectTimeout 1500)]"
    and "reconnectTimer (onclose s) = Some (nextTimerId s)"
    and "nextTimerId (onclose s) = nextTimerId s + 1"
    and "\<not> destroyed (onclose s)"
    and "sockets (onclose s) = sockets s"
    and "ws (onclose s) = ws s"
    unfolding oc using empty f2 assms(2)
    by (auto simp: Let_def setReconnectTimeout_def clearTimer_def split: option.splits)
qed


lemma timersInv_cong:
  assumes "activeTimers s' = activeTimers s" and "reconnectTimer s' = reconnectTimer s"
    and "frameCaptureTimer s' = frameCaptureTimer s" and "terrainProbeTimer s' = terrainProbeTimer s"
  shows "timersInv s' = timersInv s"
proof -
  have "timerField tm s' = timerField tm s" for tm
    using assms by (cases tm) simp_all
  then show ?thesis by (simp add: timersInv_def assms(1))
qed

lemma timersInv_empty: "activeTimers s = [] \<Longrightarrow> timersInv s"
  by (simp add: timersInv_def)

lemma onclose_destroyed:
  assumes "destroyed s"
  shows "onclose s = stopPerceptionStreaming (emitStreamState offline s)"
  using assms by (simp add: onclose_def Let_def)

lemma onclose_inv:
  assumes "timersInv s"
  shows "timersInv (onclose s)"
proof (cases "destroyed s")
  case True
  then show ?thesis
    using assms by (simp add: onclose_destroyed stopPerceptionStreaming_inv)
next
  case False
  have "timerField tm (onclose s) = Some i"
    if "(i, tm) \<in> set (activeTimers (onclose s))" for i tm
    using that onclose_live(4,5) [OF assms False] by auto
  then show ?thesis unfolding timersInv_iff [of "onclose s"] by blast
qed

lemma closeSocket_fields [simp]:
  "activeTimers (closeSocket i s) = activeTimers s"
  "reconnectTimer (closeSocket i s) = reconnectTimer s"
  "frameCaptureTimer (closeSocket i s) = frameCaptureTimer s"
  "terrainProbeTimer (closeSocket i s) = terrainProbeTimer s"
  "destroyed (closeSocket i s) = destroyed s"
  "ws (closeSocket i s) = ws s"
  "length (sockets (closeSocket i s)) = length (sockets s)"
  "streamStates (closeSocket i s) = streamStates s"
  "nextTimerId (closeSocket i s) = nextTimerId s"
  by (simp_all add: closeSocket_def)

lemma connectStream_destroyed: "destroyed s \<Longrightarrow> connectStream s = s"
  by (simp add: connectStream_def)

lemma connectStream_live:
  assumes "\<not> destroyed s"
  shows "connectAttempts (connectStream s) = connectAttempts s + 1"
    and "ws (connectStream s) = Some (length (sockets s))"
    and "sockets (connectStream s) ! length (sockets s) = CONNECTING"
    and "streamStates (connectStream s) = streamStates s @ [connecting]"
    and "activeTimers (connectStream s) = activeTimers (stopPerceptionStreaming s)"
    and "reconnectTimer (connectStream s) = reconnectTimer s"
    and "frameCaptureTimer (connectStream s) = None"
    and "terrainProbeTimer (connectStream s) = None"
    and "\<not> destroyed (connectStream s)"
  using assms
  by (simp_all add: connectStream_def Let_def connectAttempts_def nth_append
        split: option.splits)

lemma connectStream_inv:
  assumes "timersInv s"
  shows "timersInv (connectStream s)"
proof (cases "destroyed s")
  case True
  then show ?thesis using assms by (simp add: connectStream_destroyed)
next
  case False
  have "timersInv (connectStream s) = timersInv (stopPerceptionStreaming s)"
    by (rule timersInv_cong) (simp_all add: connectStream_live [OF False])
  then show ?thesis using assms by (simp add: stopPerceptionStreaming_inv)
qed

lemma clearTimer_fields [simp]:
  "activeTimers (clearTimer i s) = filter (\<lambda>entry. fst entry \<noteq> i) (activeTimers s)"
  "reconnectTimer (clearTimer i s) = reconnectTimer s"
  "frameCaptureTimer (clearTimer i s) = frameCaptureTimer s"
  "terrainProbeTimer (clearTimer i s) = terrainProbeTimer s"
  "destroyed (clearTimer i s) = destroyed s"
  "ws (clearTimer i s) = ws s"
  "sockets (clearTimer i s) = sockets s"
  "streamStates (clearTimer i s) = streamStates s"
  "nextTimerId (clearTimer i s) = nextTimerId s"
  by (simp_all add: clearTimer_def)

lemma timerField_clearTimer [simp]: "timerField tm (clearTimer i s) = timerField tm s"
  by (cases tm) simp_all

lemma clearTimer_inv: "timersInv s \<Longrightarrow> timersInv (clearTimer i s)"
  by (auto simp: timersInv_iff)

lemma stopPerceptionStreaming_empty:
  assumes "activeTimers s = []"
  shows "activeTimers (stopPerceptionStreaming s) = []"
proof -
  have "set (activeTimers (stopPerceptionStreaming s)) \<subseteq> {}"
    using stopPerceptionStreaming_timers(1) [of s] assms by simp
  then show ?thesis by simp
qed

text \<open>After a close, the one reconnect timeout fires.\<close>

lemma reconnect_fires:
  assumes "timersInv s" and "\<not> destroyed s"
  shows "connectAttempts (step (ReconnectTimerFires (nextTimerId s)) (onclose s)) = connectAttempts s + 1"
    and "streamStates (step (ReconnectTimerFires (nextTimerId s)) (onclose s))
           = streamStates s @ [offline, connecting]"
    and "activeTimers (step (ReconnectTimerFires (nextTimerId s)) (onclose s)) = []"
    and "ws (step (ReconnectTimerFires (nextTimerId s)) (onclose s)) = Some (length (sockets s))"
    and "\<not> destroyed (step (ReconnectTimerFires (nextTimerId s)) (onclose s))"
proof -
  note oc = onclose_live [OF assms]
  let ?c = "clearTimer (nextTimerId s) (onclose s)"
  have fire: "step (ReconnectTimerFires (nextTimerId s)) (onclose s) = connectStream ?c"
    by (simp add: oc(4))
  have nd: "\<not> destroyed ?c" using oc(7) by simp
  have e: "activeTimers ?c = []" by (simp add: oc(4))
  have stop: "activeTimers (stopPerceptionStreaming ?c) = []"
    using e by (rule stopPerceptionStreaming_empty)
  show "connectAttempts (step (ReconnectTimerFires (nextTimerId s)) (onclose s)) = connectAttempts s + 1"
    and "streamStates (step (ReconnectTimerFires (nextTimerId s)) (onclose s))
           = streamStates s @ [offline, connecting]"
    and "activeTimers (step (ReconnectTimerFires (nextTimerId s)) (onclose s)) = []"
    and "ws (step (ReconnectTimerFires (nextTimerId s)) (onclose s)) = Some (length (sockets s))"
    and "\<not> destroyed (step (ReconnectTimerFires (nextTimerId s)) (onclose s))"
    unfolding fire
    using connectStream_live [OF nd] stop oc
    by (simp_all add: connectAttempts_def)
qed

lemma pendingReconnects_subset:
  assumes "set (activeTimers s') \<subseteq> set (activeTimers s)" and "pendingReconnects s = []"
  shows "pendingReconnects s' = []"
  using assms by (auto simp: pendingReconnects_def filter_empty_conv)

lemma Vehicle_destroy_fields [simp]:
  "activeTimers (Vehicle_destroy s) = activeTimers s"
  "reconnectTimer (Vehicle_destroy s) = reconnectTimer s"
  "frameCaptureTimer (Vehicle_destroy s) = frameCaptureTimer s"
  "terrainProbeTimer (Vehicle_destroy s) = terrainProbeTimer s"
  "destroyed (Vehicle_destroy s) = destroyed s"
  "ws (Vehicle_destroy s) = ws s"
  "sockets (Vehicle_destroy s) = sockets s"
  "streamStates (Vehicle_destroy s) = streamStates s"
  "nextTimerId (Vehicle_destroy s) = nextTimerId s"
  by (simp_all add: Vehicle_destroy_def split: option.splits)

lemma destroy_fields:
  "destroyed (destroy s)"
  "reconnectTimer (destroy s) = None"
  "ws (destroy s) = None"
  "frameCaptureTimer (destroy s) = None"
  "terrainProbeTimer (destroy s) = None"
  "streamStates (destroy s) = streamStates s @ [offline]"
  "connectAttempts (destroy s) = connectAttempts s"
  "set (activeTimers (destroy s)) \<subseteq> set (activeTimers s)"
proof -
  let ?s3 = "stopPerceptionStreaming (cancelPendingVisionCapture (s\<lparr>destroyed := True\<rparr>))"
  have sub: "set (activeTimers ?s3) \<subseteq> set (activeTimers s)"
    using stopPerceptionStreaming_timers(1) [of "cancelPendingVisionCapture (s\<lparr>destroyed := True\<rparr>)"]
    by simp
  show "destroyed (destroy s)"
    "reconnectTimer (destroy s) = None"
    "ws (destroy s) = None"
    "frameCaptureTimer (destroy s) = None"
    "terrainProbeTimer (destroy s) = None"
    "streamStates (destroy s) = streamStates s @ [offline]"
    "connectAttempts (destroy s) = connectAttempts s"
    by (simp_all add: destroy_def Let_def connectAttempts_def split: option.splits)
  show "set (activeTimers (destroy s)) \<subseteq> set (activeTimers s)"
    using sub by (auto simp: destroy_def Let_def split: option.splits)
qed

lemma destroy_timers:
  assumes "timersInv s"
  shows "activeTimers (destroy s) = []"
proof -
  let ?s2 = "cancelPendingVisionCapture (s\<lparr>destroyed := True\<rparr>)"
  have inv2: "timersInv ?s2"
    using assms timersInv_cong [of ?s2 s] by simp
  have "(case reconnectTimer ?s2 of
           None \<Rightarrow> activeTimers (stopPerceptionStreaming ?s2)
         | Some i \<Rightarrow> activeTimers (clearTimer i (stopPerceptionStreaming ?s2))) = []"
    by (rule cleared_after_stop [OF inv2])
  then show ?thesis
    by (simp add: destroy_def Let_def split: option.splits)
qed

lemma shutDown_destroy: "timersInv s \<Longrightarrow> shutDown (destroy s)"
  by (simp add: shutDown_def destroy_fields(1) destroy_timers pendingReconnects_def)

lemma count_connecting_offline [simp]:
  "count_list (xs @ [offline]) connecting = count_list xs connecting"
  by simp

lemma shutDown_stream_steps:
  assumes "shutDown s"
  shows "shutDown (onclose s) \<and> connectAttempts (onclose s) = connectAttempts s
           \<and> count_list (streamStates (onclose s)) connecting = count_list (streamStates s) connecting"
    and "shutDown (onerror s) \<and> connectAttempts (onerror s) = connectAttempts s
           \<and> count_list (streamStates (onerror s)) connecting = count_list (streamStates s) connecting"
    and "shutDown (destroy s) \<and> connectAttempts (destroy s) = connectAttempts s
           \<and> count_list (streamStates (destroy s)) connecting = count_list (streamStates s) connecting"
    and "connectStream s = s"
    and "step (ReconnectTimerFires i) s = s"
proof -
  have d: "destroyed s" and p: "pendingReconnects s = []"
    using assms by (simp_all add: shutDown_def)
  let ?o = "stopPerceptionStreaming (emitStreamState offline s)"
  have po: "pendingReconnects ?o = []"
    using stopPerceptionStreaming_timers(1) [of "emitStreamState offline s"] p
    by (intro pendingReconnects_subset [of ?o s]) simp_all
  show "shutDown (onclose s) \<and> connectAttempts (onclose s) = connectAttempts s
           \<and> count_list (streamStates (onclose s)) connecting = count_list (streamStates s) connecting"
    using d po by (simp add: onclose_destroyed shutDown_def connectAttempts_def)
  show "shutDown (onerror s) \<and> connectAttempts (onerror s) = connectAttempts s
           \<and> count_list (streamStates (onerror s)) connecting = count_list (streamStates s) connecting"
    using d po by (simp add: onerror_def shutDown_def connectAttempts_def)
  show "shutDown (destroy s) \<and> connectAttempts (destroy s) = connectAttempts s
           \<and> count_list (streamStates (destroy s)) connecting = count_list (streamStates s) connecting"
    using pendingReconnects_subset [OF destroy_fields(8) p]
    by (simp add: shutDown_def destroy_fields)
  show "connectStream s = s"
    using d by (rule connectStream_destroyed)
  have "\<not> list_ex (\<lambda>entry. fst entry = i \<and> isReconnectTimeout (snd entry)) (activeTimers s)"
    using p by (auto simp: pendingReconnects_def filter_empty_conv list_ex_iff)
  then show "step (ReconnectTimerFires i) s = s" by simp
qed

lemma shutDown_socket_closed:
  "shutDown (s\<lparr>sockets := xs\<rparr>) = shutDown s"
  by (simp add: shutDown_def pendingReconnects_def)

section \<open>Events and the connection\<close>

lemma poseFrame_connection:
  assumes "poseFrame s' = poseFrame s"
  shows "ws s' = ws s" "sockets s' = sockets s" "reconnectTimer s' = reconnectTimer s"
    "destroyed s' = destroyed s" "activeTimers s' = activeTimers s"
    "nextTimerId s' = nextTimerId s" "streamStates s' = streamStates s"
    "frameCaptureTimer s' = frameCaptureTimer s" "terrainProbeTimer s' = terrainProbeTimer s"
  using assms by (simp_all add: poseFrame_def)

lemma connectionView_poseFrame: "poseFrame s' = poseFrame s \<Longrightarrow> connectionView s' = connectionView s"
  by (simp add: poseFrame_def connectionView_def)

lemma connectionView_update [simp]: "connectionView (update env s) = connectionView s"
proof -
  have a: "connectionView (maybeEmitPerfStatus n (applyPose env p s')) = connectionView s'" for n p s'
    by (rule connectionView_poseFrame) simp
  have b: "connectionView (s'\<lparr>lastProcessedT := x\<rparr>) = connectionView s'" for s' x
    by (simp add: connectionView_def)
  have c: "connectionView (s'\<lparr>lastProcessedT := x, lastPoseApplyMs := y, perfPoseApplied := z\<rparr>)
             = connectionView s'" for s' x y z
    by (simp add: connectionView_def)
  show ?thesis
    by (auto simp: update_def Let_def a b c split: option.splits)
qed

lemma connectionView_onmessage [simp]: "connectionView (onmessage d s) = connectionView s"
  by (simp add: onmessage_def onStatus_def connectionView_def Let_def split: option.splits)

lemma connectionView_sendDynamicObstacles [simp]:
  "connectionView (sendDynamicObstacles now obs s) = connectionView s"
  by (simp add: sendDynamicObstacles_def sendWsPayload_def connectionView_def Let_def)

lemma connectionView_timersInv:
  assumes "connectionView s' = connectionView s"
  shows "timersInv s' = timersInv s"
  using assms by (intro timersInv_cong) (simp_all add: connectionView_def)

lemma connectionView_shutDown:
  assumes "connectionView s' = connectionView s"
  shows "shutDown s' = shutDown s" and "connectAttempts s' = connectAttempts s"
    and "streamStates s' = streamStates s" and "destroyed s' = destroyed s"
  using assms by (simp_all add: connectionView_def shutDown_def pendingReconnects_def connectAttempts_def)

lemma pose_steps_connection [simp]:
  "timersInv (update env s) = timersInv s"
  "timersInv (onmessage d s) = timersInv s"
  "timersInv (sendDynamicObstacles now obs s) = timersInv s"
  "shutDown (update env s) = shutDown s"
  "shutDown (onmessage d s) = shutDown s"
  "shutDown (sendDynamicObstacles now obs s) = shutDown s"
  "connectAttempts (update env s) = connectAttempts s"
  "connectAttempts (onmessage d s) = connectAttempts s"
  "connectAttempts (sendDynamicObstacles now obs s) = connectAttempts s"
  "streamStates (update env s) = streamStates s"
  "streamStates (onmessage d s) = streamStates s"
  "streamStates (sendDynamicObstacles now obs s) = streamStates s"
  "destroyed (update env s) = destroyed s"
  "destroyed (onmessage d s) = destroyed s"
  "destroyed (sendDynamicObstacles now obs s) = destroyed s"
  by (simp_all add: connectionView_timersInv [of "update env s" s]
        connectionView_timersInv [of "onmessage d s" s]
        connectionView_timersInv [of "sendDynamicObstacles now obs s" s]
        connectionView_shutDown [of "update env s" s]
        connectionView_shutDown [of "onmessage d s" s]
        connectionView_shutDown [of "sendDynamicObstacles now obs s" s])

lemma timersInv_socket [simp]: "timersInv (s\<lparr>sockets := xs\<rparr>) = timersInv s"
  by (rule timersInv_cong) simp_all

lemma destroy_inv: "timersInv s \<Longrightarrow> timersInv (destroy s)"
  by (simp add: timersInv_empty destroy_timers)

lemma onerror_inv: "timersInv s \<Longrightarrow> timersInv (onerror s)"
  by (simp add: onerror_def stopPerceptionStreaming_inv)

lemma step_inv:
  assumes "timersInv s"
  shows "timersInv (step e s)"
proof (cases e)
  case (WsMessage d)
  with assms show ?thesis by simp
next
  case WsError
  with assms show ?thesis by (simp add: onerror_inv)
next
  case (WsClose i)
  have "timersInv (s\<lparr>sockets := (sockets s)[i := CLOSED]\<rparr>)"
    using assms by simp
  then show ?thesis
    unfolding WsClose step.simps by (rule onclose_inv)
next
  case (ReconnectTimerFires i)
  with assms show ?thesis
    by (simp add: connectStream_inv clearTimer_inv)
next
  case ConnectStream
  with assms show ?thesis by (simp add: connectStream_inv)
next
  case (Tick env)
  with assms show ?thesis by simp
next
  case (SendObstacles now obs)
  with assms show ?thesis by simp
next
  case Destroy
  with assms show ?thesis by (simp add: destroy_inv)
qed

lemma run_inv: "timersInv s \<Longrightarrow> timersInv (run evs s)"
  by (induction evs arbitrary: s) (simp_all add: step_inv)

lemma onerror_destroyed [simp]: "destroyed (onerror s) = destroyed s"
  by (simp add: onerror_def)

lemma onclose_destroyed_field [simp]: "destroyed (onclose s) = destroyed s"
  by (simp add: onclose_def Let_def setReconnectTimeout_def split: option.splits)

lemma connectStream_destroyed_field [simp]: "destroyed (connectStream s) = destroyed s"
  by (cases "destroyed s") (simp_all add: connectStream_destroyed connectStream_live)

lemma step_alive:
  assumes "e \<noteq> Destroy"
  shows "destroyed (step e s) = destroyed s"
proof (cases e)
  case (ReconnectTimerFires i)
  then show ?thesis by simp
next
  case Destroy
  with assms show ?thesis by simp
qed simp_all

lemma run_alive:
  assumes "Destroy \<notin> set evs"
  shows "destroyed (run evs s) = destroyed s"
  using assms
proof (induction evs arbitrary: s)
  case Nil
  then show ?case by simp
next
  case (Cons e evs)
  then have "e \<noteq> Destroy" and "Destroy \<notin> set evs" by auto
  then show ?case
    using Cons.IH [of "step e s"] step_alive [of e s] by simp
qed

lemma step_shutDown:
  assumes "shutDown s"
  shows "shutDown (step e s) \<and> connectAttempts (step e s) = connectAttempts s
           \<and> count_list (streamStates (step e s)) connecting = count_list (streamStates s) connecting"
proof (cases e)
  case (WsClose i)
  have sd: "shutDown (s\<lparr>sockets := (sockets s)[i := CLOSED]\<rparr>)"
    using assms by (simp add: shutDown_socket_closed)
  show ?thesis
    using shutDown_stream_steps(1) [OF sd] WsClose by (simp add: connectAttempts_def)
next
  case (WsMessage d)
  with assms show ?thesis by simp
next
  case WsError
  with shutDown_stream_steps(2) [OF assms] show ?thesis by simp
next
  case (ReconnectTimerFires i)
  with assms shutDown_stream_steps(5) [OF assms, of i] show ?thesis by simp
next
  case ConnectStream
  with assms shutDown_stream_steps(4) [OF assms] show ?thesis by simp
next
  case (Tick env)
  with assms show ?thesis by simp
next
  case (SendObstacles now obs)
  with assms show ?thesis by simp
next
  case Destroy
  with shutDown_stream_steps(3) [OF assms] show ?thesis by simp
qed

lemma run_shutDown:
  assumes "shutDown s"
  shows "shutDown (run evs s) \<and> connectAttempts (run evs s) = connectAttempts s
           \<and> count_list (streamStates (run evs s)) connecting = count_list (streamStates s) connecting"
  using assms
proof (induction evs arbitrary: s)
  case Nil
  then show ?case by simp
next
  case (Cons e evs)
  from step_shutDown [OF Cons.prems, of e] Cons.IH [of "step e s"]
  show ?case by simp
qed

text \<open>
  Claim C8. Let every active timer be the one the object refers to (which holds
  after construction and after every event). For a close event while the
  entity is not destroyed: the stream state becomes offline, both capture
  timers are stopped, and exactly one timer is active afterwards, the reconnect
  timeout with a delay of 1500 ms; when it fires, exactly one new connection
  attempt is made and no timer is left. Events other than teardown leave the
  entity alive, so this repeats after every close. After \<^verbatim>\<open>destroy\<close> no timer is
  active, and no later sequence of events schedules a reconnect or makes a
  connection attempt.
\<close>

theorem C8_reconnect_lifecycle:
  assumes "timersInv s"
  shows "(\<not> destroyed s \<longrightarrow>
            streamStates (step (WsClose i) s) = streamStates s @ [offline]
            \<and> frameCaptureTimer (step (WsClose i) s) = None
            \<and> terrainProbeTimer (step (WsClose i) s) = None
            \<and> activeTimers (step (WsClose i) s) = [(nextTimerId s, ReconnectTimeout 1500)]
            \<and> reconnectTimer (step (WsClose i) s) = Some (nextTimerId s)
            \<and> connectAttempts (step (WsClose i) s) = connectAttempts s
            \<and> connectAttempts (step (ReconnectTimerFires (nextTimerId s)) (step (WsClose i) s))
                = connectAttempts s + 1
            \<and> streamStates (step (ReconnectTimerFires (nextTimerId s)) (step (WsClose i) s))
                = streamStates s @ [offline, connecting]
            \<and> activeTimers (step (ReconnectTimerFires (nextTimerId s)) (step (WsClose i) s)) = []
            \<and> \<not> destroyed (step (ReconnectTimerFires (nextTimerId s)) (step (WsClose i) s)))
         \<and> (\<forall>evs. timersInv (run evs s)
                \<and> (Destroy \<notin> set evs \<longrightarrow> destroyed (run evs s) = destroyed s))
         \<and> destroyed (destroy s)
         \<and> activeTimers (destroy s) = []
         \<and> reconnectTimer (destroy s) = None
         \<and> ws (destroy s) = None
         \<and> (\<forall>evs. destroyed (run evs (destroy s))
                \<and> pendingReconnects (run evs (destroy s)) = []
                \<and> connectAttempts (run evs (destroy s)) = connectAttempts s
                \<and> count_list (streamStates (run evs (destroy s))) connecting
                    = count_list (streamStates s) connecting)"
proof -
  let ?c = "s\<lparr>sockets := (sockets s)[i := CLOSED]\<rparr>"
  have invc: "timersInv ?c" using assms by simp
  have close: "step (WsClose i) s = onclose ?c" by simp
  have live: "\<not> destroyed s \<Longrightarrow>
            streamStates (step (WsClose i) s) = streamStates s @ [offline]
            \<and> frameCaptureTimer (step (WsClose i) s) = None
            \<and> terrainProbeTimer (step (WsClose i) s) = None
            \<and> activeTimers (step (WsClose i) s) = [(nextTimerId s, ReconnectTimeout 1500)]
            \<and> reconnectTimer (step (WsClose i) s) = Some (nextTimerId s)
            \<and> connectAttempts (step (WsClose i) s) = connectAttempts s
            \<and> connectAttempts (step (ReconnectTimerFires (nextTimerId s)) (step (WsClose i) s))
                = connectAttempts s + 1
            \<and> streamStates (step (ReconnectTimerFires (nextTimerId s)) (step (WsClose i) s))
                = streamStates s @ [offline, connecting]
            \<and> activeTimers (step (ReconnectTimerFires (nextTimerId s)) (step (WsClose i) s)) = []
            \<and> \<not> destroyed (step (ReconnectTimerFires (nextTimerId s)) (step (WsClose i) s))"
  proof -
    assume nd: "\<not> destroyed s"
    then have ndc: "\<not> destroyed ?c" by simp
    have nx: "nextTimerId ?c = nextTimerId s" by simp
    note oc = onclose_live [OF invc ndc]
    note rf = reconnect_fires [OF invc ndc, unfolded nx]
    show ?thesis
      unfolding close
      using oc(1,2,3,4,5,8) rf
      by (simp add: connectAttempts_def)
  qed
  have runs: "timersInv (run evs s) \<and> (Destroy \<notin> set evs \<longrightarrow> destroyed (run evs s) = destroyed s)"
    for evs
    using run_inv [OF assms] run_alive by blast
  have sd: "shutDown (destroy s)"
    using assms by (rule shutDown_destroy)
  have after: "destroyed (run evs (destroy s))
                \<and> pendingReconnects (run evs (destroy s)) = []
                \<and> connectAttempts (run evs (destroy s)) = connectAttempts s
                \<and> count_list (streamStates (run evs (destroy s))) connecting
                    = count_list (streamStates s) connecting" for evs
    using run_shutDown [OF sd, of evs]
    by (simp add: shutDown_def destroy_fields)
  show ?thesis
    using live runs after destroy_fields(1,2,3) [of s] destroy_timers [OF assms]
    by blast
qed

lemma connectedRobot_fields:
  "activeTimers connectedRobot = []"
  "\<not> destroyed connectedRobot"
  "nextTimerId connectedRobot = 1"
  "streamStates connectedRobot = [connecting]"
  "connectAttempts connectedRobot = 1"
  "ws connectedRobot = Some 0"
  by (simp_all add: connectedRobot_def connectStream_def stopPerceptionStreaming_def
        cancelPendingVisionCapture_def emitStreamState_def connectAttempts_def G1Robot_new_def
        Let_def)

theorem C8_reconnect_lifecycle_witness:
  "timersInv connectedRobot \<and> \<not> destroyed connectedRobot
   \<and> streamStates (step (WsClose 0) connectedRobot) = [connecting, offline]
   \<and> activeTimers (step (WsClose 0) connectedRobot) = [(1, ReconnectTimeout 1500)]
   \<and> connectAttempts (step (ReconnectTimerFires 1) (step (WsClose 0) connectedRobot)) = 2
   \<and> activeTimers (destroy (step (WsClose 0) connectedRobot)) = []
   \<and> connectAttempts
        (run [WsClose 0, ReconnectTimerFires 1, ConnectStream, WsError] (destroy connectedRobot)) = 1
   \<and> pendingReconnects
        (run [WsClose 0, ReconnectTimerFires 1, ConnectStream, WsError] (destroy connectedRobot)) = []"
proof -
  have inv: "timersInv connectedRobot"
    by (simp add: timersInv_empty connectedRobot_fields)
  have inv': "timersInv (step (WsClose 0) connectedRobot)"
    using inv by (rule step_inv)
  note a = C8_reconnect_lifecycle [OF inv, of 0]
  note b = C8_reconnect_lifecycle [OF inv', of 0]
  note l = a [THEN conjunct1, THEN mp, OF connectedRobot_fields(2),
    unfolded connectedRobot_fields(3,4,5)]
  have a1: "streamStates (step (WsClose 0) connectedRobot) = [connecting] @ [offline]"
    "activeTimers (step (WsClose 0) connectedRobot) = [(1, ReconnectTimeout 1500)]"
    "connectAttempts (step (ReconnectTimerFires 1) (step (WsClose 0) connectedRobot)) = 1 + 1"
    using l by blast+
  note r = a [THEN conjunct2, THEN conjunct2, unfolded connectedRobot_fields(5)]
  have a2: "connectAttempts
        (run [WsClose 0, ReconnectTimerFires 1, ConnectStream, WsError] (destroy connectedRobot)) = 1"
    "pendingReconnects
        (run [WsClose 0, ReconnectTimerFires 1, ConnectStream, WsError] (destroy connectedRobot)) = []"
    using r by blast+
  have b1: "activeTimers (destroy (step (WsClose 0) connectedRobot)) = []"
    using b by blast
  show ?thesis
    using inv connectedRobot_fields(2) a1 a2 b1 by simp
qed

section \<open>Manual heading override\<close>

lemma calibrationView_stream [simp]:
  "calibrationView (emitStreamState x s) = calibrationView s"
  "calibrationView (clearTimer i s) = calibrationView s"
  "calibrationView (snd (setReconnectTimeout d s)) = calibrationView s"
  "calibrationView (closeSocket i s) = calibrationView s"
  "calibrationView (cancelPendingVisionCapture s) = calibrationView s"
  "calibrationView (Vehicle_destroy s) = calibrationView s"
  "calibrationView (onStatus m s) = calibrationView s"
  by (simp_all add: emitStreamState_def clearTimer_def setReconnectTimeout_def closeSocket_def
        cancelPendingVisionCapture_def Vehicle_destroy_def onStatus_def Let_def
        calibrationView_def split: option.splits)

lemma calibrationView_fields [simp]:
  "calibrationView (s\<lparr>frameCaptureTimer := a\<rparr>) = calibrationView s"
  "calibrationView (s\<lparr>terrainProbeTimer := a\<rparr>) = calibrationView s"
  "calibrationView (s\<lparr>reconnectTimer := a\<rparr>) = calibrationView s"
  "calibrationView (s\<lparr>ws := b\<rparr>) = calibrationView s"
  "calibrationView (s\<lparr>sockets := c\<rparr>) = calibrationView s"
  "calibrationView (s\<lparr>destroyed := d\<rparr>) = calibrationView s"
  "calibrationView (s\<lparr>perfWsIn := e\<rparr>) = calibrationView s"
  "calibrationView (s\<lparr>latestPayload := f\<rparr>) = calibrationView s"
  "calibrationView (s\<lparr>dynamicObstacleSeq := g\<rparr>) = calibrationView s"
  "calibrationView (s\<lparr>outbox := h, perfWsOut := k\<rparr>) = calibrationView s"
  by (simp_all add: calibrationView_def)

lemma calibrationView_stopPerceptionStreaming [simp]:
  "calibrationView (stopPerceptionStreaming s) = calibrationView s"
  by (simp add: stopPerceptionStreaming_def Let_def split: option.splits)

lemma calibrationView_handlers [simp]:
  "calibrationView (connectStream s) = calibrationView s"
  "calibrationView (onerror s) = calibrationView s"
  "calibrationView (onclose s) = calibrationView s"
  "calibrationView (destroy s) = calibrationView s"
  "calibrationView (onmessage d s) = calibrationView s"
  "calibrationView (sendDynamicObstacles now obs s) = calibrationView s"
  by (simp_all add: connectStream_def onerror_def onclose_def destroy_def onmessage_def
        sendDynamicObstacles_def sendWsPayload_def Let_def split_beta split: option.splits)










text \<open>At \<open>10\<^sup>1\<^sup>7\<close> the first loop does not move: in doubles \<^verbatim>\<open>1e17 - Math.PI * 2\<close>
  is \<^verbatim>\<open>1e17\<close>. The loop has no result, and neither has the manual override.\<close>

lemma rounded_1e17: "binary64 (10 ^ 17 - Math_PI * 2) = 10 ^ 17"
proof -
  let ?x = "10 ^ 17 - Math_PI * 2 :: real"
  have q: "quantum ?x = 2 ^ 56 / 2 ^ 52"
    by (rule quantum_pow) (simp_all add: Math_PI_def)
  have r: "roundTiesToEven (?x / (2 ^ 56 / 2 ^ 52)) = 6250000000000000"
    by (simp add: roundTiesToEven_def Let_def Math_PI_def)
  show ?thesis
    using binary64_eval [OF _ q r] by (simp add: Math_PI_def)
qed

lemma normalizeSignedAngle_down_1e17:
  "normalizeSignedAngle_down (10 ^ 17) = None"
proof -
  have "v \<noteq> 10 ^ 17" if "normalizeSignedAngle_down v = Some r" for v r
  proof (rule normalizeSignedAngle_down.raw_induct [where P = "\<lambda>v r. v \<noteq> 10 ^ 17", OF _ that])
    fix f :: "real \<Rightarrow> real option" and v r
    assume IH: "\<And>x y. f x = Some y \<Longrightarrow> x \<noteq> 10 ^ 17"
      and body: "(if Math_PI < v then f (binary64 (v - Math_PI * 2)) else Some v) = Some r"
    show "v \<noteq> 10 ^ 17"
    proof
      assume v: "v = 10 ^ 17"
      then have "v > Math_PI" by (simp add: Math_PI_def)
      with body have "f (binary64 (v - Math_PI * 2)) = Some r" by simp
      then have "f (10 ^ 17) = Some r" using v rounded_1e17 by simp
      from IH [OF this] show False by simp
    qed
  qed
  then show ?thesis by (cases "normalizeSignedAngle_down (10 ^ 17)") auto
qed

lemma setModelHeadingOffsetRad_1e17:
  "setModelHeadingOffsetRad (Finite (10 ^ 17)) s = None"
  using normalizeSignedAngle_down_1e17
  by (simp add: setModelHeadingOffsetRad_def normalizeSignedAngle_def)








end
